theory Spec2Isabelle
  imports Main
begin

section \<open>Data model\<close>

text \<open>
  The controller works on four kinds of cluster objects (Deployment, CronJob,
  Job, Pod), whose types come from the Kubernetes API packages. Only the fields
  the controller reads or writes are spelled out; everything else a container
  or a CronJob carries is kept in an opaque component (\<open>c_rest\<close>, \<open>cj_rest\<close>), so
  that frame properties can speak about it. Names, namespaces, UIDs and images
  are strings; labels and annotations are maps from strings to strings.
\<close>

record 'c container =
  c_name :: string
  c_image :: string
  c_rest :: 'c

record 'c deployment =
  d_namespace :: string
  d_name :: string
  d_containers :: "'c container list"

record ('c, 's) cronjob =
  cj_namespace :: string
  cj_name :: string
  cj_uid :: string
  cj_labels :: "string \<rightharpoonup> string"
  cj_annotations :: "string \<rightharpoonup> string"
  cj_containers :: "'c container list"
  cj_rest :: 's

text \<open>The owner reference of the Kubernetes object metadata (\<open>metav1.OwnerReference\<close>).\<close>

record ownerReference =
  or_apiVersion :: string
  or_kind :: string
  or_name :: string
  or_uid :: string
  or_controller :: "bool option"
  or_blockOwnerDeletion :: "bool option"

record job =
  job_namespace :: string
  job_name :: string
  job_ownerReferences :: "ownerReference list"

record pod =
  pod_namespace :: string
  pod_name :: string
  pod_labels :: "string \<rightharpoonup> string"

section \<open>Image synchronisation (the inner loop of \<open>Reconcile\<close>)\<close>

text \<open>
  \<open>imageByName\<close> is the map built from the Deployment's containers; a later
  container overwrites an earlier one of the same name.
\<close>

fun imageByName_from :: "'c container list \<Rightarrow> (string \<rightharpoonup> string) \<Rightarrow> (string \<rightharpoonup> string)" where
  "imageByName_from [] m = m"
| "imageByName_from (c # cs) m = imageByName_from cs (m(c_name c \<mapsto> c_image c))"

definition imageByName :: "'c deployment \<Rightarrow> (string \<rightharpoonup> string)" where
  "imageByName deploy = imageByName_from (d_containers deploy) Map.empty"

text \<open>
  One iteration of the loop over the CronJob's containers: the container after
  the iteration and whether the iteration set \<open>updated\<close>.
\<close>

definition syncContainer :: "'c deployment \<Rightarrow> 'k container \<Rightarrow> 'k container \<times> bool" where
  "syncContainer deploy c =
     (case imageByName deploy (c_name c) of
        Some img \<Rightarrow>
          if c_image c \<noteq> img then (c\<lparr>c_image := img\<rparr>, True) else (c, False)
      | None \<Rightarrow>
          if length (d_containers deploy) > 0
          then (let fallback = c_image (d_containers deploy ! 0)
                in if c_image c \<noteq> fallback then (c\<lparr>c_image := fallback\<rparr>, True) else (c, False))
          else (c, False))"

fun syncContainers :: "'c deployment \<Rightarrow> 'k container list \<Rightarrow> bool \<Rightarrow> 'k container list \<times> bool" where
  "syncContainers deploy [] updated = ([], updated)"
| "syncContainers deploy (c # cs) updated =
     (case syncContainer deploy c of
        (c', u) \<Rightarrow>
          (case syncContainers deploy cs (updated \<or> u) of
             (cs', updated') \<Rightarrow> (c' # cs', updated')))"

definition syncImages :: "'c deployment \<Rightarrow> ('k, 's) cronjob \<Rightarrow> ('k, 's) cronjob \<times> bool" where
  "syncImages deploy cj =
     (case syncContainers deploy (cj_containers cj) False of
        (cs', updated) \<Rightarrow> (cj\<lparr>cj_containers := cs'\<rparr>, updated))"

section \<open>Errors, the cluster store and the client\<close>

text \<open>
  An API error carries the reason the client library classifies it by and the
  text its \<open>Error()\<close> method returns.
\<close>

datatype errorReason = NotFound | Conflict | Unavailable

datatype error = ApiError (err_reason: errorReason) (err_text: string)

text \<open>\<open>client.IgnoreNotFound\<close>: a not-found error becomes \<open>nil\<close>, every other error stays.\<close>

definition IgnoreNotFound :: "error \<Rightarrow> error option" where
  "IgnoreNotFound err = (if err_reason err = NotFound then None else Some err)"

text \<open>
  Modelled from the spec: the client capabilities \<open>get\<close>, \<open>list\<close>, \<open>update\<close>,
  \<open>delete\<close> and \<open>deleteAllMatching\<close> of its section on external interfaces,
  which the reconciler calls through the embedded \<open>client.Client\<close> of the
  controller library. The cluster store holds the objects, one list per kind;
  listing returns the objects of a namespace in the order of the store, an
  update replaces the stored object of the same namespace and name, a delete
  removes it (for a Job, as its propagation policy says, see below), and both
  fail with a not-found error when there is none. \<open>terminating\<close> holds the
  namespace and name of the Jobs under foreground deletion.
  \<open>faults\<close> is the schedule of transport and store failures (conflicts
  included): every client call consumes its head, and fails with the error
  found there, leaving the store as it is; an exhausted schedule means that no
  further call fails this way. Any pattern of failing calls is a schedule.
\<close>

record ('c, 's) world =
  deployments :: "'c deployment list"
  cronjobs :: "('c, 's) cronjob list"
  jobs :: "job list"
  pods :: "pod list"
  terminating :: "(string \<times> string) list"
  faults :: "error option list"

definition next_fault :: "('c, 's) world \<Rightarrow> error option \<times> ('c, 's) world" where
  "next_fault w = (case faults w of [] \<Rightarrow> (None, w) | f # fs \<Rightarrow> (f, w\<lparr>faults := fs\<rparr>))"

record request =
  req_namespace :: string
  req_name :: string

definition client_Get :: "request \<Rightarrow> ('c, 's) world \<Rightarrow> (error + 'c deployment) \<times> ('c, 's) world" where
  "client_Get req w =
     (case next_fault w of
        (Some err, w') \<Rightarrow> (Inl err, w')
      | (None, w') \<Rightarrow>
          (case find (\<lambda>d. d_namespace d = req_namespace req \<and> d_name d = req_name req)
                  (deployments w') of
             None \<Rightarrow> (Inl (ApiError NotFound ''deployment not found''), w')
           | Some d \<Rightarrow> (Inr d, w')))"

definition client_ListCronJobs ::
  "string \<Rightarrow> ('c, 's) world \<Rightarrow> (error + ('c, 's) cronjob list) \<times> ('c, 's) world" where
  "client_ListCronJobs ns w =
     (case next_fault w of
        (Some err, w') \<Rightarrow> (Inl err, w')
      | (None, w') \<Rightarrow> (Inr (filter (\<lambda>cj. cj_namespace cj = ns) (cronjobs w')), w'))"

definition sameCronJob :: "('c, 's) cronjob \<Rightarrow> ('c, 's) cronjob \<Rightarrow> bool" where
  "sameCronJob a b = (cj_namespace a = cj_namespace b \<and> cj_name a = cj_name b)"

definition client_Update :: "('c, 's) cronjob \<Rightarrow> ('c, 's) world \<Rightarrow> error option \<times> ('c, 's) world" where
  "client_Update cj w =
     (case next_fault w of
        (Some err, w') \<Rightarrow> (Some err, w')
      | (None, w') \<Rightarrow>
          if list_ex (sameCronJob cj) (cronjobs w')
          then (None, w'\<lparr>cronjobs := map (\<lambda>x. if sameCronJob cj x then cj else x) (cronjobs w')\<rparr>)
          else (Some (ApiError NotFound ''cronjob not found''), w'))"

definition client_ListJobs :: "string \<Rightarrow> ('c, 's) world \<Rightarrow> (error + job list) \<times> ('c, 's) world" where
  "client_ListJobs ns w =
     (case next_fault w of
        (Some err, w') \<Rightarrow> (Inl err, w')
      | (None, w') \<Rightarrow> (Inr (filter (\<lambda>j. job_namespace j = ns) (jobs w')), w'))"

datatype propagationPolicy =
  DeletePropagationOrphan | DeletePropagationBackground | DeletePropagationForeground

definition sameJob :: "job \<Rightarrow> job \<Rightarrow> bool" where
  "sameJob a b = (job_namespace a = job_namespace b \<and> job_name a = job_name b)"

text \<open>The pods of a Job: those of its namespace that carry its name as label \<open>job-name\<close>.\<close>

definition podOfJob :: "string \<Rightarrow> string \<Rightarrow> pod \<Rightarrow> bool" where
  "podOfJob ns jobName p = (pod_namespace p = ns \<and> pod_labels p ''job-name'' = Some jobName)"

text \<open>
  Modelled from the spec: foreground cascading deletion, where the owner is not
  removed before its dependents are. A successful foreground \<open>Delete\<close> of a Job
  that still has pods leaves the Job in the store, under deletion; the Job is
  removed once its pods are (here: by the explicit pod deletion below, the
  only call that removes pods). A Job without pods is removed by the call
  itself, and so is a Job deleted with one of the other two policies, which
  leave the pods behind.
\<close>

definition client_Delete ::
  "job \<Rightarrow> propagationPolicy \<Rightarrow> ('c, 's) world \<Rightarrow> error option \<times> ('c, 's) world" where
  "client_Delete j policy w =
     (case next_fault w of
        (Some err, w') \<Rightarrow> (Some err, w')
      | (None, w') \<Rightarrow>
          if list_ex (sameJob j) (jobs w')
          then (if policy = DeletePropagationForeground \<and>
                   list_ex (podOfJob (job_namespace j) (job_name j)) (pods w')
                then (None, w'\<lparr>terminating :=
                                  (job_namespace j, job_name j) # terminating w'\<rparr>)
                else (None, w'\<lparr>jobs := filter (\<lambda>x. \<not> sameJob j x) (jobs w'),
                                terminating :=
                                  filter (\<lambda>k. k \<noteq> (job_namespace j, job_name j))
                                    (terminating w')\<rparr>))
          else (Some (ApiError NotFound ''job not found''), w'))"

definition client_DeleteAllOfPods ::
  "string \<Rightarrow> string \<Rightarrow> ('c, 's) world \<Rightarrow> error option \<times> ('c, 's) world" where
  "client_DeleteAllOfPods ns jobName w =
     (case next_fault w of
        (Some err, w') \<Rightarrow> (Some err, w')
      | (None, w') \<Rightarrow>
          (None, w'\<lparr>pods := filter (\<lambda>p. \<not> podOfJob ns jobName p) (pods w'),
                     jobs := filter (\<lambda>x. \<not> ((ns, jobName) \<in> set (terminating w') \<and>
                                              job_namespace x = ns \<and> job_name x = jobName))
                               (jobs w'),
                     terminating := filter (\<lambda>k. k \<noteq> (ns, jobName)) (terminating w')\<rparr>))"

section \<open>Metrics, events and the trace of a reconcile\<close>

datatype counterVec = syncsTotal | cronjobsUpdated | jobsDeleted | syncErrors

datatype eventType = EventTypeNormal | EventTypeWarning

text \<open>The object an event is recorded on: a Deployment or a CronJob (with its UID).\<close>

datatype objectRef = DeploymentObj string string | CronJobObj string string string

text \<open>
  What a reconcile does to the outside, in the order it does it: counter
  increments (with the two label values), recorded events (object, type, reason,
  message), and the writing client calls with their outcome. Log lines are not
  part of the trace.
\<close>

datatype ('c, 's) effect =
    Inc counterVec string string
  | Event objectRef eventType string string
  | Update "('c, 's) cronjob" "error option"
  | Delete job propagationPolicy "error option"
  | DeleteAllOfPods string string "error option"

definition cronJobRef :: "('c, 's) cronjob \<Rightarrow> objectRef" where
  "cronJobRef cj = CronJobObj (cj_namespace cj) (cj_name cj) (cj_uid cj)"

definition deploymentRef :: "'c deployment \<Rightarrow> objectRef" where
  "deploymentRef d = DeploymentObj (d_namespace d) (d_name d)"

section \<open>Matching CronJobs to a Deployment\<close>

fun hasSharedImage_loop :: "string set \<Rightarrow> 'c container list \<Rightarrow> bool" where
  "hasSharedImage_loop depImages [] = False"
| "hasSharedImage_loop depImages (c # cs) =
     (if c_image c \<in> depImages then True else hasSharedImage_loop depImages cs)"

definition hasSharedImage :: "('k, 's) cronjob \<Rightarrow> 'c deployment \<Rightarrow> bool" where
  "hasSharedImage cj d =
     hasSharedImage_loop (set (map c_image (d_containers d))) (cj_containers cj)"

definition labelMatches :: "('k, 's) cronjob \<Rightarrow> 'c deployment \<Rightarrow> bool" where
  "labelMatches cj d = (cj_labels cj ''managed-by-deployment'' = Some (d_name d))"

definition annotationMatches :: "('k, 's) cronjob \<Rightarrow> 'c deployment \<Rightarrow> bool" where
  "annotationMatches cj d =
     (cj_annotations cj ''controller.example.com/managed-by-deployment'' =
        Some (d_namespace d @ ''/'' @ d_name d))"

text \<open>The loop of \<open>findCronJobsForDeployment\<close> over the listed items, appending to \<open>out\<close>.\<close>

fun matchCronJobs ::
  "'c deployment \<Rightarrow> ('k, 's) cronjob list \<Rightarrow> ('k, 's) cronjob list \<Rightarrow> ('k, 's) cronjob list" where
  "matchCronJobs d [] out = out"
| "matchCronJobs d (cj # items) out =
     (if labelMatches cj d then matchCronJobs d items (out @ [cj])
      else if annotationMatches cj d then matchCronJobs d items (out @ [cj])
      else if hasSharedImage cj d then matchCronJobs d items (out @ [cj])
      else matchCronJobs d items out)"

definition findCronJobsForDeployment ::
  "'c deployment \<Rightarrow> ('c, 's) world \<Rightarrow> (error + ('c, 's) cronjob list) \<times> ('c, 's) world" where
  "findCronJobsForDeployment d w =
     (case client_ListCronJobs (d_namespace d) w of
        (Inl err, w') \<Rightarrow> (Inl err, w')
      | (Inr items, w') \<Rightarrow> (Inr (matchCronJobs d items []), w'))"

text \<open>
  The matching rule as the specification words it: a list of rules tried in
  some order, the first one that holds adds the candidate (once) and moves on to
  the next candidate.
\<close>

fun matchWithRules ::
  "(('k, 's) cronjob \<Rightarrow> 'c deployment \<Rightarrow> bool) list \<Rightarrow> 'c deployment \<Rightarrow>
   ('k, 's) cronjob list \<Rightarrow> ('k, 's) cronjob list" where
  "matchWithRules rules d [] = []"
| "matchWithRules rules d (cj # items) =
     (if list_ex (\<lambda>rule. rule cj d) rules then cj # matchWithRules rules d items
      else matchWithRules rules d items)"

section \<open>Deleting the Jobs of a CronJob\<close>

fun isOwnedByCronJob_loop :: "ownerReference list \<Rightarrow> ('c, 's) cronjob \<Rightarrow> bool" where
  "isOwnedByCronJob_loop [] cj = False"
| "isOwnedByCronJob_loop (owner # owners) cj =
     (if or_kind owner = ''CronJob'' \<and> or_name owner = cj_name cj \<and> or_uid owner = cj_uid cj
      then True else isOwnedByCronJob_loop owners cj)"

definition isOwnedByCronJob :: "job \<Rightarrow> ('c, 's) cronjob \<Rightarrow> bool" where
  "isOwnedByCronJob j cj = isOwnedByCronJob_loop (job_ownerReferences j) cj"

definition jobDeletedMessage :: "string \<Rightarrow> string \<Rightarrow> string" where
  "jobDeletedMessage jobName cjName =
     ''Deleted Job '' @ jobName @ '' and its Pods for CronJob '' @ cjName @
     '' to allow new runs with updated image''"

fun deleteJobsLoop ::
  "('c, 's) cronjob \<Rightarrow> job list \<Rightarrow> ('c, 's) world \<Rightarrow>
   error option \<times> ('c, 's) world \<times> ('c, 's) effect list" where
  "deleteJobsLoop cj [] w = (None, w, [])"
| "deleteJobsLoop cj (j # items) w =
     (if \<not> isOwnedByCronJob j cj then deleteJobsLoop cj items w
      else
        (case client_Delete j DeletePropagationForeground w of
           (Some err, w1) \<Rightarrow> (Some err, w1, [Delete j DeletePropagationForeground (Some err)])
         | (None, w1) \<Rightarrow>
             (case client_DeleteAllOfPods (cj_namespace cj) (job_name j) w1 of
                (Some err, w2) \<Rightarrow>
                  (Some err, w2,
                   [Delete j DeletePropagationForeground None,
                    DeleteAllOfPods (cj_namespace cj) (job_name j) (Some err)])
              | (None, w2) \<Rightarrow>
                  (case deleteJobsLoop cj items w2 of
                     (res, w3, tr) \<Rightarrow>
                       (res, w3,
                        [Delete j DeletePropagationForeground None,
                         DeleteAllOfPods (cj_namespace cj) (job_name j) None,
                         Inc jobsDeleted (cj_namespace cj) (cj_name cj),
                         Event (cronJobRef cj) EventTypeNormal ''JobDeleted''
                           (jobDeletedMessage (job_name j) (cj_name cj))] @ tr)))))"

definition deleteJobsForCronJob ::
  "('c, 's) cronjob \<Rightarrow> ('c, 's) world \<Rightarrow>
   error option \<times> ('c, 's) world \<times> ('c, 's) effect list" where
  "deleteJobsForCronJob cj w =
     (case client_ListJobs (cj_namespace cj) w of
        (Inl err, w') \<Rightarrow> (Some err, w', [])
      | (Inr items, w') \<Rightarrow> deleteJobsLoop cj items w')"

section \<open>Reconcile\<close>

definition updateFailedMessage :: "string \<Rightarrow> error \<Rightarrow> string" where
  "updateFailedMessage cjName err = ''failed to update CronJob '' @ cjName @ '': '' @ err_text err"

definition cronJobUpdatedMessage :: "string \<Rightarrow> string \<Rightarrow> string" where
  "cronJobUpdatedMessage ns name =
     ''Updated job template images from Deployment '' @ ns @ ''/'' @ name"

definition deleteJobsFailedMessage :: "string \<Rightarrow> error \<Rightarrow> string" where
  "deleteJobsFailedMessage cjName err =
     ''failed to delete Jobs for CronJob '' @ cjName @ '': '' @ err_text err"

text \<open>The loop of \<open>Reconcile\<close> over the matched CronJobs.\<close>

fun reconcileLoop ::
  "'c deployment \<Rightarrow> ('c, 's) cronjob list \<Rightarrow> ('c, 's) world \<Rightarrow>
   error option \<times> ('c, 's) world \<times> ('c, 's) effect list" where
  "reconcileLoop deploy [] w = (None, w, [])"
| "reconcileLoop deploy (cj0 # rest) w =
     (case syncImages deploy cj0 of
        (cj, updated) \<Rightarrow>
          if updated then
            (case client_Update cj w of
               (Some err, w1) \<Rightarrow>
                 (Some err, w1,
                  [Update cj (Some err),
                   Inc syncErrors (d_namespace deploy) (d_name deploy),
                   Event (deploymentRef deploy) EventTypeWarning ''UpdateFailed''
                     (updateFailedMessage (cj_name cj) err)])
             | (None, w1) \<Rightarrow>
                 (case deleteJobsForCronJob cj w1 of
                    (Some err, w2, tr) \<Rightarrow>
                      (Some err, w2,
                       [Update cj None,
                        Inc cronjobsUpdated (cj_namespace cj) (cj_name cj),
                        Event (cronJobRef cj) EventTypeNormal ''CronJobUpdated''
                          (cronJobUpdatedMessage (d_namespace deploy) (d_name deploy))]
                       @ tr @
                       [Inc syncErrors (d_namespace deploy) (d_name deploy),
                        Event (cronJobRef cj) EventTypeWarning ''DeleteJobsFailed''
                          (deleteJobsFailedMessage (cj_name cj) err)])
                  | (None, w2, tr) \<Rightarrow>
                      (case reconcileLoop deploy rest w2 of
                         (res, w3, tr') \<Rightarrow>
                           (res, w3,
                            [Update cj None,
                             Inc cronjobsUpdated (cj_namespace cj) (cj_name cj),
                             Event (cronJobRef cj) EventTypeNormal ''CronJobUpdated''
                               (cronJobUpdatedMessage (d_namespace deploy) (d_name deploy))]
                            @ tr @
                            [Event (cronJobRef cj) EventTypeNormal ''JobsRecreated''
                               ''Deleted existing Jobs so future runs use the updated image'']
                            @ tr'))))
          else reconcileLoop deploy rest w)"

definition Reconcile ::
  "request \<Rightarrow> ('c, 's) world \<Rightarrow> error option \<times> ('c, 's) world \<times> ('c, 's) effect list" where
  "Reconcile req w =
     (case client_Get req w of
        (Inl err, w1) \<Rightarrow> (IgnoreNotFound err, w1, [])
      | (Inr deploy, w1) \<Rightarrow>
          (case findCronJobsForDeployment deploy w1 of
             (Inl err, w2) \<Rightarrow>
               (Some err, w2, [Inc syncsTotal (d_namespace deploy) (d_name deploy)])
           | (Inr cjs, w2) \<Rightarrow>
               (case reconcileLoop deploy cjs w2 of
                  (res, w3, tr) \<Rightarrow>
                    (res, w3, Inc syncsTotal (d_namespace deploy) (d_name deploy) # tr))))"

section \<open>Reading a trace\<close>

fun isEventOfType :: "eventType \<Rightarrow> ('c, 's) effect \<Rightarrow> bool" where
  "isEventOfType t (Event obj t' reason message) = (t' = t)"
| "isEventOfType t (Inc c ns name) = False"
| "isEventOfType t (Update cj r) = False"
| "isEventOfType t (Delete j policy r) = False"
| "isEventOfType t (DeleteAllOfPods ns jobName r) = False"

fun isIncOf :: "counterVec \<Rightarrow> ('c, 's) effect \<Rightarrow> bool" where
  "isIncOf c (Inc c' ns name) = (c' = c)"
| "isIncOf c (Event obj t reason message) = False"
| "isIncOf c (Update cj r) = False"
| "isIncOf c (Delete j policy r) = False"
| "isIncOf c (DeleteAllOfPods ns jobName r) = False"

text \<open>A pod deletion that went through.\<close>

fun isPodsDeleted :: "('c, 's) effect \<Rightarrow> bool" where
  "isPodsDeleted (DeleteAllOfPods ns jobName r) = (r = None)"
| "isPodsDeleted (Inc c ns name) = False"
| "isPodsDeleted (Event obj t reason message) = False"
| "isPodsDeleted (Update cj r) = False"
| "isPodsDeleted (Delete j policy r) = False"

text \<open>
  The effects that the loop of \<open>Reconcile\<close> produces for one CronJob once it has
  written it back, and the CronJob such an effect is about.
\<close>

fun perCronJob :: "('c, 's) effect \<Rightarrow> bool" where
  "perCronJob (Delete j policy r) = True"
| "perCronJob (DeleteAllOfPods ns jobName r) = True"
| "perCronJob (Event (CronJobObj ns name uid) t reason message) = True"
| "perCronJob (Event (DeploymentObj ns name) t reason message) = False"
| "perCronJob (Inc c ns name) = (c = cronjobsUpdated \<or> c = jobsDeleted)"
| "perCronJob (Update cj r) = False"

fun concerns :: "('c, 's) effect \<Rightarrow> ('c, 's) cronjob \<Rightarrow> bool" where
  "concerns (Delete j policy r) s = isOwnedByCronJob j s"
| "concerns (DeleteAllOfPods ns jobName r) s = (ns = cj_namespace s)"
| "concerns (Event obj t reason message) s = (obj = cronJobRef s)"
| "concerns (Inc c ns name) s = (ns = cj_namespace s \<and> name = cj_name s)"
| "concerns (Update cj r) s = (cj = s)"

text \<open>
  Every per-CronJob effect of the trace comes after a successful \<open>Update\<close> of the
  CronJob it is about (or the CronJob is one of \<open>U\<close>, written back earlier).
\<close>

definition afterPersist :: "('c, 's) cronjob set \<Rightarrow> ('c, 's) effect list \<Rightarrow> bool" where
  "afterPersist U tr =
     (\<forall>pre e post. tr = pre @ e # post \<and> perCronJob e \<longrightarrow>
        (\<exists>s. (s \<in> U \<or> Update s None \<in> set pre) \<and> concerns e s))"

section \<open>Comparing CronJobs\<close>

text \<open>Two CronJobs that differ at most in the images of their containers.\<close>

definition sameExceptImages :: "('c, 's) cronjob \<Rightarrow> ('c, 's) cronjob \<Rightarrow> bool" where
  "sameExceptImages a b =
     (cj_namespace b = cj_namespace a \<and> cj_name b = cj_name a \<and> cj_uid b = cj_uid a \<and>
      cj_labels b = cj_labels a \<and> cj_annotations b = cj_annotations a \<and>
      cj_rest b = cj_rest a \<and>
      map c_name (cj_containers b) = map c_name (cj_containers a) \<and>
      map c_rest (cj_containers b) = map c_rest (cj_containers a))"

section \<open>A worked cluster\<close>

text \<open>
  A small cluster used to run the definitions on: the Deployment \<open>default/web\<close>
  with two containers, and the CronJob \<open>default/report\<close> that is labelled as
  managed by it and still runs the previous image.
\<close>

definition demo_deploy :: "unit deployment" where
  "demo_deploy = \<lparr>d_namespace = ''default'', d_name = ''web'',
     d_containers = [\<lparr>c_name = ''nginx'', c_image = ''nginx:1.22'', c_rest = ()\<rparr>,
                     \<lparr>c_name = ''sidecar'', c_image = ''envoy:1.30'', c_rest = ()\<rparr>]\<rparr>"

definition demo_cronjob :: "(unit, unit) cronjob" where
  "demo_cronjob = \<lparr>cj_namespace = ''default'', cj_name = ''report'', cj_uid = ''uid-1'',
     cj_labels = [''managed-by-deployment'' \<mapsto> ''web''],
     cj_annotations = [''controller.example.com/managed-by-deployment'' \<mapsto> ''default/web''],
     cj_containers = [\<lparr>c_name = ''nginx'', c_image = ''nginx:1.21'', c_rest = ()\<rparr>,
                      \<lparr>c_name = ''worker'', c_image = ''envoy:1.30'', c_rest = ()\<rparr>],
     cj_rest = ()\<rparr>"

text \<open>The CronJob as the image synchronisation leaves it.\<close>

definition demo_synced :: "(unit, unit) cronjob" where
  "demo_synced = demo_cronjob\<lparr>cj_containers :=
     [\<lparr>c_name = ''nginx'', c_image = ''nginx:1.22'', c_rest = ()\<rparr>,
      \<lparr>c_name = ''worker'', c_image = ''nginx:1.22'', c_rest = ()\<rparr>]\<rparr>"

text \<open>
  Two Jobs: \<open>report-1\<close> was created by the CronJob (its second owner reference
  names it, without the controller flag); \<open>report-0\<close> was created by an earlier
  CronJob of the same name and another UID.
\<close>

definition demo_job :: job where
  "demo_job = \<lparr>job_namespace = ''default'', job_name = ''report-1'',
     job_ownerReferences =
       [\<lparr>or_apiVersion = ''v1'', or_kind = ''ConfigMap'', or_name = ''audit'', or_uid = ''uid-7'',
         or_controller = Some True, or_blockOwnerDeletion = None\<rparr>,
        \<lparr>or_apiVersion = ''batch/v1beta1'', or_kind = ''CronJob'', or_name = ''report'',
         or_uid = ''uid-1'', or_controller = Some False, or_blockOwnerDeletion = None\<rparr>]\<rparr>"

definition demo_stale_job :: job where
  "demo_stale_job = \<lparr>job_namespace = ''default'', job_name = ''report-0'',
     job_ownerReferences =
       [\<lparr>or_apiVersion = ''batch/v1'', or_kind = ''CronJob'', or_name = ''report'',
         or_uid = ''uid-0'', or_controller = Some True, or_blockOwnerDeletion = Some True\<rparr>]\<rparr>"

definition demo_pod :: pod where
  "demo_pod = \<lparr>pod_namespace = ''default'', pod_name = ''report-1-x7k2p'',
     pod_labels = [''job-name'' \<mapsto> ''report-1'']\<rparr>"

definition demo_world :: "error option list \<Rightarrow> (unit, unit) world" where
  "demo_world fs = \<lparr>deployments = [demo_deploy], cronjobs = [demo_cronjob],
     jobs = [demo_stale_job, demo_job], pods = [demo_pod], terminating = [],
     faults = fs\<rparr>"

definition demo_request :: request where
  "demo_request = \<lparr>req_namespace = ''default'', req_name = ''web''\<rparr>"


definition demo_unavailable :: error where
  "demo_unavailable = ApiError Unavailable ''etcdserver: request timed out''"

section \<open>Properties of the image synchronisation\<close>

lemma imageByName_from_dom:
  "dom (imageByName_from cs m) = dom m \<union> c_name ` set cs"
  by (induction cs arbitrary: m) auto

lemma imageByName_dom: "dom (imageByName deploy) = c_name ` set (d_containers deploy)"
  by (simp add: imageByName_def imageByName_from_dom)

lemma imageByName_from_notin:
  "n \<notin> c_name ` set cs \<Longrightarrow> imageByName_from cs m n = m n"
  by (induction cs arbitrary: m) auto

lemma imageByName_from_distinct:
  "distinct (map c_name cs) \<Longrightarrow> p \<in> set cs \<Longrightarrow>
   imageByName_from cs m (c_name p) = Some (c_image p)"
proof (induction cs arbitrary: m)
  case Nil
  then show ?case by simp
next
  case (Cons c cs)
  show ?case
  proof (cases "p = c")
    case True
    with Cons.prems have "c_name p \<notin> c_name ` set cs" by auto
    then show ?thesis using True by (simp add: imageByName_from_notin)
  next
    case False
    with Cons show ?thesis by auto
  qed
qed

lemma syncContainers_length:
  "length (fst (syncContainers deploy cs u)) = length cs"
  by (induction cs arbitrary: u) (simp_all add: split_beta)

lemma syncContainers_nth:
  "i < length cs \<Longrightarrow>
   fst (syncContainers deploy cs u) ! i = fst (syncContainer deploy (cs ! i))"
proof (induction cs arbitrary: u i)
  case Nil
  then show ?case by simp
next
  case (Cons c cs)
  then show ?case
    by (cases i) (simp_all add: split_beta)
qed

lemma syncContainers_flag:
  "snd (syncContainers deploy cs u) = (u \<or> (\<exists>c \<in> set cs. snd (syncContainer deploy c)))"
  by (induction cs arbitrary: u) (auto simp: split_beta)

lemma syncImages_containers:
  "cj_containers (fst (syncImages deploy cj)) =
   map (\<lambda>c. fst (syncContainer deploy c)) (cj_containers cj)"
  by (simp add: syncImages_def split_beta list_eq_iff_nth_eq syncContainers_length
      syncContainers_nth)

lemma syncImages_flag:
  "snd (syncImages deploy cj) = (\<exists>c \<in> set (cj_containers cj). snd (syncContainer deploy c))"
  by (simp add: syncImages_def split_beta syncContainers_flag)

lemma syncContainer_named:
  "imageByName deploy (c_name c) = Some img \<Longrightarrow>
   fst (syncContainer deploy c) = c\<lparr>c_image := img\<rparr>"
  by (simp add: syncContainer_def)

text \<open>
  Claim C1. After the image synchronisation, a container of the CronJob whose
  name is the name of some container of the Deployment carries the image that
  the Deployment's name-to-image map holds for that name; its name is unchanged.
  When the Deployment's container names are pairwise distinct, this is the image
  of that very container of the Deployment.
\<close>

theorem name_sync_complete:
  assumes "i < length (cj_containers cj)"
    and "p \<in> set (d_containers deploy)"
    and "c_name p = c_name (cj_containers cj ! i)"
  shows "imageByName deploy (c_name p) =
           Some (c_image (cj_containers (fst (syncImages deploy cj)) ! i)) \<and>
         c_name (cj_containers (fst (syncImages deploy cj)) ! i) = c_name p \<and>
         (distinct (map c_name (d_containers deploy)) \<longrightarrow>
            c_image (cj_containers (fst (syncImages deploy cj)) ! i) = c_image p)"
proof -
  let ?c = "cj_containers cj ! i"
  from assms(2) have "c_name p \<in> dom (imageByName deploy)"
    by (simp add: imageByName_dom)
  then obtain img where img: "imageByName deploy (c_name ?c) = Some img"
    using assms(3) by auto
  have nth: "cj_containers (fst (syncImages deploy cj)) ! i = ?c\<lparr>c_image := img\<rparr>"
    using assms(1) img by (simp add: syncImages_containers syncContainer_named)
  have "distinct (map c_name (d_containers deploy)) \<Longrightarrow> img = c_image p"
    using imageByName_from_distinct [OF _ assms(2), of Map.empty] img assms(3)
    by (simp add: imageByName_def)
  then show ?thesis using nth img assms(3) by auto
qed

theorem name_sync_complete_witness:
  "0 < length (cj_containers demo_cronjob) \<and>
   \<lparr>c_name = ''nginx'', c_image = ''nginx:1.22'', c_rest = ()\<rparr> \<in> set (d_containers demo_deploy) \<and>
   c_name (cj_containers demo_cronjob ! 0) = ''nginx'' \<and>
   distinct (map c_name (d_containers demo_deploy)) \<and>
   c_image (cj_containers demo_cronjob ! 0) = ''nginx:1.21'' \<and>
   c_image (cj_containers (fst (syncImages demo_deploy demo_cronjob)) ! 0) = ''nginx:1.22''"
  using name_sync_complete [of 0 demo_cronjob "\<lparr>c_name = ''nginx'', c_image = ''nginx:1.22'', c_rest = ()\<rparr>" demo_deploy]
  by (simp add: demo_cronjob_def demo_deploy_def)

lemma syncContainer_unnamed:
  "imageByName deploy (c_name c) = None \<Longrightarrow>
   syncContainer deploy c =
     (if d_containers deploy = [] then (c, False)
      else if c_image c \<noteq> c_image (d_containers deploy ! 0)
           then (c\<lparr>c_image := c_image (d_containers deploy ! 0)\<rparr>, True) else (c, False))"
  by (simp add: syncContainer_def Let_def)

text \<open>
  Claim C2. A container of the CronJob whose name is the name of no container of
  the Deployment: when the Deployment has a container and the image differs from
  the image of the Deployment's first container, the image becomes that first
  image (nothing else of the container changes) and \<open>updated\<close> is set; when the
  Deployment has no container, the container is left as it is.
\<close>

theorem positional_fallback:
  assumes "i < length (cj_containers cj)"
    and "\<forall>p \<in> set (d_containers deploy). c_name p \<noteq> c_name (cj_containers cj ! i)"
  shows "(d_containers deploy \<noteq> [] \<and>
          c_image (cj_containers cj ! i) \<noteq> c_image (d_containers deploy ! 0) \<longrightarrow>
            cj_containers (fst (syncImages deploy cj)) ! i =
              (cj_containers cj ! i)\<lparr>c_image := c_image (d_containers deploy ! 0)\<rparr> \<and>
            snd (syncImages deploy cj)) \<and>
         (d_containers deploy = [] \<longrightarrow>
            cj_containers (fst (syncImages deploy cj)) ! i = cj_containers cj ! i)"
proof -
  let ?c = "cj_containers cj ! i"
  from assms(2) have "c_name ?c \<notin> dom (imageByName deploy)"
    by (auto simp: imageByName_dom)
  then have none: "imageByName deploy (c_name ?c) = None" by auto
  have mem: "?c \<in> set (cj_containers cj)" using assms(1) by simp
  have nth: "cj_containers (fst (syncImages deploy cj)) ! i = fst (syncContainer deploy ?c)"
    using assms(1) by (simp add: syncImages_containers)
  have flag: "snd (syncContainer deploy ?c) \<Longrightarrow> snd (syncImages deploy cj)"
    using mem unfolding syncImages_flag by blast
  show ?thesis
    using nth flag syncContainer_unnamed [OF none]
    by (simp split: if_splits)
qed

theorem positional_fallback_witness:
  "1 < length (cj_containers demo_cronjob) \<and>
   c_name (cj_containers demo_cronjob ! 1) = ''worker'' \<and>
   ''worker'' \<notin> c_name ` set (d_containers demo_deploy) \<and>
   d_containers demo_deploy \<noteq> [] \<and>
   c_image (cj_containers demo_cronjob ! 1) \<noteq> c_image (d_containers demo_deploy ! 0) \<and>
   cj_containers (fst (syncImages demo_deploy demo_cronjob)) ! 1 =
     \<lparr>c_name = ''worker'', c_image = ''nginx:1.22'', c_rest = ()\<rparr> \<and>
   snd (syncImages demo_deploy demo_cronjob)"
  using positional_fallback [of 1 demo_cronjob demo_deploy]
  by (simp add: demo_cronjob_def demo_deploy_def)


subsection \<open>The client calls\<close>

lemma next_fault_store:
  "next_fault w = (f, w') \<Longrightarrow>
   deployments w' = deployments w \<and> cronjobs w' = cronjobs w \<and> jobs w' = jobs w \<and>
   pods w' = pods w \<and> terminating w' = terminating w"
  by (auto simp: next_fault_def split: list.splits)

lemma client_Get_Inr:
  "client_Get req w = (Inr d, w') \<Longrightarrow>
   find (\<lambda>d. d_namespace d = req_namespace req \<and> d_name d = req_name req) (deployments w) = Some d \<and>
   deployments w' = deployments w \<and> cronjobs w' = cronjobs w \<and> jobs w' = jobs w \<and>
   pods w' = pods w"
  by (auto simp: client_Get_def split: prod.splits option.splits dest: next_fault_store)

lemma client_Get_store:
  "client_Get req w = (r, w') \<Longrightarrow>
   deployments w' = deployments w \<and> cronjobs w' = cronjobs w \<and> jobs w' = jobs w \<and>
   pods w' = pods w"
  by (auto simp: client_Get_def split: prod.splits option.splits dest: next_fault_store)

lemma client_ListCronJobs_store:
  "client_ListCronJobs ns w = (r, w') \<Longrightarrow>
   deployments w' = deployments w \<and> cronjobs w' = cronjobs w \<and> jobs w' = jobs w \<and>
   pods w' = pods w"
  by (auto simp: client_ListCronJobs_def split: prod.splits option.splits dest: next_fault_store)

lemma client_ListCronJobs_Inr:
  "client_ListCronJobs ns w = (Inr items, w') \<Longrightarrow>
   items = filter (\<lambda>cj. cj_namespace cj = ns) (cronjobs w)"
  by (auto simp: client_ListCronJobs_def split: prod.splits option.splits dest: next_fault_store)

lemma client_ListJobs_store:
  "client_ListJobs ns w = (r, w') \<Longrightarrow>
   deployments w' = deployments w \<and> cronjobs w' = cronjobs w \<and> jobs w' = jobs w \<and>
   pods w' = pods w"
  by (auto simp: client_ListJobs_def split: prod.splits option.splits dest: next_fault_store)

lemma client_ListJobs_Inr:
  "client_ListJobs ns w = (Inr items, w') \<Longrightarrow>
   items = filter (\<lambda>j. job_namespace j = ns) (jobs w)"
  by (auto simp: client_ListJobs_def split: prod.splits option.splits dest: next_fault_store)

lemma client_Update_None:
  "client_Update cj w = (None, w') \<Longrightarrow>
   cronjobs w' = map (\<lambda>x. if sameCronJob cj x then cj else x) (cronjobs w) \<and>
   deployments w' = deployments w \<and> jobs w' = jobs w \<and> pods w' = pods w"
  by (auto simp: client_Update_def split: prod.splits option.splits if_splits
      dest: next_fault_store)

lemma client_Update_Some:
  "client_Update cj w = (Some err, w') \<Longrightarrow>
   cronjobs w' = cronjobs w \<and> deployments w' = deployments w \<and> jobs w' = jobs w \<and>
   pods w' = pods w"
  by (auto simp: client_Update_def split: prod.splits option.splits if_splits
      dest: next_fault_store)

lemma client_Delete_None:
  "client_Delete j policy w = (None, w') \<Longrightarrow>
   (jobs w' = jobs w \<and> (job_namespace j, job_name j) \<in> set (terminating w') \<or>
    jobs w' = filter (\<lambda>x. \<not> sameJob j x) (jobs w)) \<and>
   (\<exists>x \<in> set (jobs w). sameJob j x) \<and>
   deployments w' = deployments w \<and> cronjobs w' = cronjobs w \<and> pods w' = pods w"
  by (auto simp: client_Delete_def list_ex_iff split: prod.splits option.splits if_splits
      dest!: next_fault_store)

lemma client_Delete_Some:
  "client_Delete j policy w = (Some err, w') \<Longrightarrow>
   jobs w' = jobs w \<and> deployments w' = deployments w \<and> cronjobs w' = cronjobs w \<and>
   pods w' = pods w"
  by (auto simp: client_Delete_def split: prod.splits option.splits if_splits
      dest: next_fault_store)

lemma client_DeleteAllOfPods_store:
  "client_DeleteAllOfPods ns n w = (r, w') \<Longrightarrow>
   deployments w' = deployments w \<and> cronjobs w' = cronjobs w"
  by (auto simp: client_DeleteAllOfPods_def split: prod.splits option.splits
      dest: next_fault_store)

lemma client_DeleteAllOfPods_Some:
  "client_DeleteAllOfPods ns n w = (Some err, w') \<Longrightarrow>
   jobs w' = jobs w \<and> pods w' = pods w \<and> terminating w' = terminating w"
  by (auto simp: client_DeleteAllOfPods_def split: prod.splits option.splits
      dest: next_fault_store)

lemma client_DeleteAllOfPods_None:
  "client_DeleteAllOfPods ns n w = (None, w') \<Longrightarrow>
   jobs w' = filter (\<lambda>x. \<not> ((ns, n) \<in> set (terminating w) \<and>
                            job_namespace x = ns \<and> job_name x = n)) (jobs w) \<and>
   pods w' = filter (\<lambda>p. \<not> podOfJob ns n p) (pods w)"
  by (auto simp: client_DeleteAllOfPods_def split: prod.splits option.splits
      dest!: next_fault_store)

text \<open>A foreground delete followed by the deletion of the Job's pods removes the Job.\<close>

lemma delete_then_pods:
  assumes "client_Delete j DeletePropagationForeground w = (None, w1)"
    and "client_DeleteAllOfPods (job_namespace j) (job_name j) w1 = (None, w2)"
  shows "jobs w2 = filter (\<lambda>x. \<not> sameJob j x) (jobs w)"
proof -
  from client_DeleteAllOfPods_None [OF assms(2)]
  have w2: "jobs w2 = filter (\<lambda>x. \<not> ((job_namespace j, job_name j) \<in> set (terminating w1) \<and>
                            job_namespace x = job_namespace j \<and> job_name x = job_name j))
                        (jobs w1)"
    by simp
  from client_Delete_None [OF assms(1)]
  have "jobs w1 = jobs w \<and> (job_namespace j, job_name j) \<in> set (terminating w1) \<or>
        jobs w1 = filter (\<lambda>x. \<not> sameJob j x) (jobs w)"
    by simp
  then show ?thesis
  proof
    assume "jobs w1 = jobs w \<and> (job_namespace j, job_name j) \<in> set (terminating w1)"
    with w2 show ?thesis by (auto simp: sameJob_def intro: filter_cong)
  next
    assume "jobs w1 = filter (\<lambda>x. \<not> sameJob j x) (jobs w)"
    with w2 show ?thesis by (auto simp: sameJob_def intro: filter_cong)
  qed
qed

subsection \<open>The ownership test\<close>

lemma isOwnedByCronJob_loop_iff:
  "isOwnedByCronJob_loop owners cj \<longleftrightarrow>
   (\<exists>owner \<in> set owners. or_kind owner = ''CronJob'' \<and> or_name owner = cj_name cj \<and>
      or_uid owner = cj_uid cj)"
  by (induction owners) auto

lemma isOwnedByCronJob_iff:
  "isOwnedByCronJob j cj \<longleftrightarrow>
   (\<exists>owner \<in> set (job_ownerReferences j). or_kind owner = ''CronJob'' \<and>
      or_name owner = cj_name cj \<and> or_uid owner = cj_uid cj)"
  by (simp add: isOwnedByCronJob_def isOwnedByCronJob_loop_iff)

subsection \<open>The loop over the listed Jobs\<close>

lemma deleteJobsLoop_Cons_cases:
  assumes "deleteJobsLoop cj (j # items) w = (res, w', tr)"
  obtains
    (skipped) "\<not> isOwnedByCronJob j cj" "deleteJobsLoop cj items w = (res, w', tr)"
  | (delete_failed) err where "isOwnedByCronJob j cj"
      "client_Delete j DeletePropagationForeground w = (Some err, w')"
      "res = Some err" "tr = [Delete j DeletePropagationForeground (Some err)]"
  | (pods_failed) err w1 where "isOwnedByCronJob j cj"
      "client_Delete j DeletePropagationForeground w = (None, w1)"
      "client_DeleteAllOfPods (cj_namespace cj) (job_name j) w1 = (Some err, w')"
      "res = Some err"
      "tr = [Delete j DeletePropagationForeground None,
             DeleteAllOfPods (cj_namespace cj) (job_name j) (Some err)]"
  | (deleted) w1 w2 tr' where "isOwnedByCronJob j cj"
      "client_Delete j DeletePropagationForeground w = (None, w1)"
      "client_DeleteAllOfPods (cj_namespace cj) (job_name j) w1 = (None, w2)"
      "deleteJobsLoop cj items w2 = (res, w', tr')"
      "tr = [Delete j DeletePropagationForeground None,
             DeleteAllOfPods (cj_namespace cj) (job_name j) None,
             Inc jobsDeleted (cj_namespace cj) (cj_name cj),
             Event (cronJobRef cj) EventTypeNormal ''JobDeleted''
               (jobDeletedMessage (job_name j) (cj_name cj))] @ tr'"
  using assms
  by (auto split: if_splits prod.splits option.splits)

lemma deleteJobsLoop_Delete_owned:
  "deleteJobsLoop cj items w = (res, w', tr) \<Longrightarrow> Delete j policy r \<in> set tr \<Longrightarrow>
   isOwnedByCronJob j cj \<and> j \<in> set items \<and> policy = DeletePropagationForeground"
proof (induction items arbitrary: w res w' tr)
  case Nil
  then show ?case by simp
next
  case (Cons a items)
  from Cons.prems(1) show ?case
  proof (cases rule: deleteJobsLoop_Cons_cases)
    case skipped
    with Cons.IH Cons.prems(2) show ?thesis by auto
  next
    case (delete_failed err)
    with Cons.prems(2) show ?thesis by auto
  next
    case (pods_failed err w1)
    with Cons.prems(2) show ?thesis by auto
  next
    case (deleted w1 w2 tr')
    with Cons.IH [OF deleted(4)] Cons.prems(2) show ?thesis by auto
  qed
qed

lemma deleteJobsLoop_deletes_owned:
  "deleteJobsLoop cj items w = (None, w', tr) \<Longrightarrow> j \<in> set items \<Longrightarrow>
   isOwnedByCronJob j cj \<Longrightarrow> Delete j DeletePropagationForeground None \<in> set tr"
proof (induction items arbitrary: w w' tr)
  case Nil
  then show ?case by simp
next
  case (Cons a items)
  from Cons.prems(1) show ?case
  proof (cases rule: deleteJobsLoop_Cons_cases)
    case skipped
    with Cons.IH Cons.prems show ?thesis by auto
  next
    case (delete_failed err)
    then show ?thesis by simp
  next
    case (pods_failed err w1)
    then show ?thesis by simp
  next
    case (deleted w1 w2 tr')
    with Cons.IH [OF deleted(4)] Cons.prems show ?thesis by auto
  qed
qed

lemma deleteJobsForCronJob_cases:
  assumes "deleteJobsForCronJob cj w = (res, w', tr)"
  obtains
    (list_failed) err where "client_ListJobs (cj_namespace cj) w = (Inl err, w')"
      "res = Some err" "tr = []"
  | (listed) w1 where
      "client_ListJobs (cj_namespace cj) w =
         (Inr (filter (\<lambda>j. job_namespace j = cj_namespace cj) (jobs w)), w1)"
      "deleteJobsLoop cj (filter (\<lambda>j. job_namespace j = cj_namespace cj) (jobs w)) w1 =
         (res, w', tr)"
  using assms
  by (auto simp: deleteJobsForCronJob_def split: prod.splits sum.splits
      dest: client_ListJobs_Inr)


lemma deleteJobsLoop_survivor:
  "deleteJobsLoop cj items w = (res, w', tr) \<Longrightarrow> x \<in> set (jobs w) \<Longrightarrow>
   \<forall>j \<in> set items. job_namespace j = cj_namespace cj \<Longrightarrow>
   (\<forall>j \<in> set items. isOwnedByCronJob j cj \<longrightarrow> \<not> sameJob j x) \<Longrightarrow> x \<in> set (jobs w')"
proof (induction items arbitrary: w res w' tr)
  case Nil
  then show ?case by simp
next
  case (Cons a items)
  from Cons.prems(3) have ns: "job_namespace a = cj_namespace cj"
    and rest: "\<forall>j \<in> set items. job_namespace j = cj_namespace cj" by simp_all
  from Cons.prems(4) have others: "\<forall>j \<in> set items. isOwnedByCronJob j cj \<longrightarrow> \<not> sameJob j x"
    by simp
  from Cons.prems(1) show ?case
  proof (cases rule: deleteJobsLoop_Cons_cases)
    case skipped
    from Cons.IH [OF skipped(2) Cons.prems(2) rest others] show ?thesis .
  next
    case (delete_failed err)
    with Cons.prems(2) show ?thesis by (auto dest: client_Delete_Some)
  next
    case (pods_failed err w1)
    from pods_failed(1) Cons.prems(4) have "\<not> sameJob a x" by simp
    with client_Delete_None [OF pods_failed(2)] Cons.prems(2)
    have "x \<in> set (jobs w1)" by auto
    with client_DeleteAllOfPods_Some [OF pods_failed(3)] show ?thesis by simp
  next
    case (deleted w1 w2 tr')
    from deleted(1) Cons.prems(4) have "\<not> sameJob a x" by simp
    with delete_then_pods [OF deleted(2) deleted(3) [folded ns]] Cons.prems(2)
    have "x \<in> set (jobs w2)" by simp
    from Cons.IH [OF deleted(4) this rest others] show ?thesis .
  qed
qed

lemma deleteJobsLoop_jobs_subset:
  "deleteJobsLoop cj items w = (res, w', tr) \<Longrightarrow> set (jobs w') \<subseteq> set (jobs w)"
proof (induction items arbitrary: w res w' tr)
  case Nil
  then show ?case by simp
next
  case (Cons a items)
  from Cons.prems(1) show ?case
  proof (cases rule: deleteJobsLoop_Cons_cases)
    case skipped
    from Cons.IH [OF skipped(2)] show ?thesis .
  next
    case (delete_failed err)
    from client_Delete_Some [OF delete_failed(2)] show ?thesis by simp
  next
    case (pods_failed err w1)
    from client_Delete_None [OF pods_failed(2)] client_DeleteAllOfPods_Some [OF pods_failed(3)]
    show ?thesis by auto
  next
    case (deleted w1 w2 tr')
    from client_Delete_None [OF deleted(2)] client_DeleteAllOfPods_None [OF deleted(3)]
    have "set (jobs w2) \<subseteq> set (jobs w)" by auto
    with Cons.IH [OF deleted(4)] show ?thesis by blast
  qed
qed

text \<open>In a run without error, no Job of the namespace and name of a listed owned Job is left.\<close>

lemma deleteJobsLoop_owned_gone:
  "deleteJobsLoop cj items w = (None, w', tr) \<Longrightarrow>
   \<forall>j \<in> set items. job_namespace j = cj_namespace cj \<Longrightarrow>
   j \<in> set items \<Longrightarrow> isOwnedByCronJob j cj \<Longrightarrow> \<forall>x \<in> set (jobs w'). \<not> sameJob j x"
proof (induction items arbitrary: w w' tr)
  case Nil
  then show ?case by simp
next
  case (Cons a items)
  from Cons.prems(2) have ns: "job_namespace a = cj_namespace cj"
    and rest: "\<forall>j \<in> set items. job_namespace j = cj_namespace cj" by simp_all
  from Cons.prems(1) show ?case
  proof (cases rule: deleteJobsLoop_Cons_cases)
    case skipped
    with Cons.prems(3,4) have "j \<in> set items" by auto
    from Cons.IH [OF skipped(2) rest this Cons.prems(4)] show ?thesis .
  next
    case (delete_failed err)
    then show ?thesis by simp
  next
    case (pods_failed err w1)
    then show ?thesis by simp
  next
    case (deleted w1 w2 tr')
    show ?thesis
    proof (cases "j = a")
      case True
      from delete_then_pods [OF deleted(2) deleted(3) [folded ns]]
      have "\<forall>x \<in> set (jobs w2). \<not> sameJob a x" by simp
      with deleteJobsLoop_jobs_subset [OF deleted(4)] True show ?thesis by blast
    next
      case False
      with Cons.prems(3) have "j \<in> set items" by simp
      from Cons.IH [OF deleted(4) rest this Cons.prems(4)] show ?thesis .
    qed
  qed
qed

lemma sameJob_distinct:
  "distinct (map (\<lambda>x. (job_namespace x, job_name x)) js) \<Longrightarrow> a \<in> set js \<Longrightarrow> b \<in> set js \<Longrightarrow>
   sameJob a b \<Longrightarrow> a = b"
  by (auto simp: sameJob_def distinct_map dest: inj_onD)

text \<open>
  Claim C4. Every Job that \<open>deleteJobsForCronJob\<close> calls \<open>Delete\<close> on has an owner
  reference of kind \<open>CronJob\<close> whose name and UID are those of the CronJob. A Job
  all of whose owner references of that kind and name carry another UID is never
  passed to \<open>Delete\<close>, and (the store holding one Job per namespace and name) it
  is still in the store afterwards.
\<close>

theorem ownership_exact_deletion:
  assumes "deleteJobsForCronJob cj w = (res, w', tr)"
  shows "(\<forall>j policy r. Delete j policy r \<in> set tr \<longrightarrow>
            (\<exists>owner \<in> set (job_ownerReferences j).
               or_kind owner = ''CronJob'' \<and> or_name owner = cj_name cj \<and>
               or_uid owner = cj_uid cj)) \<and>
         (\<forall>j. (\<forall>owner \<in> set (job_ownerReferences j).
                 or_kind owner = ''CronJob'' \<and> or_name owner = cj_name cj \<longrightarrow>
                 or_uid owner \<noteq> cj_uid cj) \<longrightarrow>
              (\<forall>policy r. Delete j policy r \<notin> set tr) \<and>
              (distinct (map (\<lambda>x. (job_namespace x, job_name x)) (jobs w)) \<and> j \<in> set (jobs w) \<longrightarrow>
                 j \<in> set (jobs w')))"
proof -
  have owned: "isOwnedByCronJob j cj" if "Delete j policy r \<in> set tr" for j policy r
    using assms
  proof (cases rule: deleteJobsForCronJob_cases)
    case (list_failed err)
    with that show ?thesis by simp
  next
    case (listed w1)
    from deleteJobsLoop_Delete_owned [OF listed(2) that] show ?thesis by simp
  qed
  have survives: "j \<in> set (jobs w')"
    if "\<not> isOwnedByCronJob j cj" and "j \<in> set (jobs w)"
      and "distinct (map (\<lambda>x. (job_namespace x, job_name x)) (jobs w))" for j
    using assms
  proof (cases rule: deleteJobsForCronJob_cases)
    case (list_failed err)
    with that(2) show ?thesis by (auto dest: client_ListJobs_store)
  next
    case (listed w1)
    have "j \<in> set (jobs w1)"
      using listed(1) that(2) by (auto dest: client_ListJobs_store)
    moreover have "\<forall>a \<in> set (filter (\<lambda>j. job_namespace j = cj_namespace cj) (jobs w)).
                     job_namespace a = cj_namespace cj"
      by simp
    moreover have "\<forall>a \<in> set (filter (\<lambda>j. job_namespace j = cj_namespace cj) (jobs w)).
                     isOwnedByCronJob a cj \<longrightarrow> \<not> sameJob a j"
      using that sameJob_distinct [OF that(3) _ that(2)] by auto
    ultimately show ?thesis by (rule deleteJobsLoop_survivor [OF listed(2)])
  qed
  show ?thesis
    using owned survives unfolding isOwnedByCronJob_iff by blast
qed

lemma demo_syncImages: "syncImages demo_deploy demo_cronjob = (demo_synced, True)"
  by (simp add: syncImages_def syncContainer_def imageByName_def demo_deploy_def
      demo_cronjob_def demo_synced_def)

lemma demo_deleteJobs:
  "deleteJobsForCronJob demo_synced (demo_world []) =
     (None, (demo_world [])\<lparr>jobs := [demo_stale_job], pods := []\<rparr>,
      [Delete demo_job DeletePropagationForeground None,
       DeleteAllOfPods ''default'' ''report-1'' None,
       Inc jobsDeleted ''default'' ''report'',
       Event (CronJobObj ''default'' ''report'' ''uid-1'') EventTypeNormal ''JobDeleted''
         ''Deleted Job report-1 and its Pods for CronJob report to allow new runs with updated image''])"
  by (simp add: deleteJobsForCronJob_def client_ListJobs_def next_fault_def demo_world_def
      isOwnedByCronJob_def client_Delete_def client_DeleteAllOfPods_def podOfJob_def cronJobRef_def
      jobDeletedMessage_def demo_synced_def demo_cronjob_def
      demo_job_def demo_stale_job_def sameJob_def demo_pod_def)

theorem ownership_exact_deletion_witness:
  "deleteJobsForCronJob demo_synced (demo_world []) =
     (None, (demo_world [])\<lparr>jobs := [demo_stale_job], pods := []\<rparr>,
      [Delete demo_job DeletePropagationForeground None,
       DeleteAllOfPods ''default'' ''report-1'' None,
       Inc jobsDeleted ''default'' ''report'',
       Event (CronJobObj ''default'' ''report'' ''uid-1'') EventTypeNormal ''JobDeleted''
         ''Deleted Job report-1 and its Pods for CronJob report to allow new runs with updated image'']) \<and>
   map or_kind (job_ownerReferences demo_stale_job) = [''CronJob''] \<and>
   map or_name (job_ownerReferences demo_stale_job) = [cj_name demo_synced] \<and>
   map or_uid (job_ownerReferences demo_stale_job) = [''uid-0''] \<and>
   cj_uid demo_synced = ''uid-1'' \<and>
   distinct (map (\<lambda>x. (job_namespace x, job_name x)) (jobs (demo_world []))) \<and>
   demo_stale_job \<in> set (jobs (demo_world [])) \<and>
   demo_stale_job \<in> set (jobs ((demo_world [])\<lparr>jobs := [demo_stale_job], pods := []\<rparr>)) \<and>
   (\<exists>owner \<in> set (job_ownerReferences demo_job).
      or_kind owner = ''CronJob'' \<and> or_name owner = cj_name demo_synced \<and>
      or_uid owner = cj_uid demo_synced)"
proof -
  note run = demo_deleteJobs
  have stale: "\<forall>owner \<in> set (job_ownerReferences demo_stale_job).
      or_kind owner = ''CronJob'' \<and> or_name owner = cj_name demo_synced \<longrightarrow>
      or_uid owner \<noteq> cj_uid demo_synced"
    by (simp add: demo_stale_job_def demo_synced_def demo_cronjob_def)
  have keys: "distinct (map (\<lambda>x. (job_namespace x, job_name x)) (jobs (demo_world [])))"
    by (simp add: demo_world_def demo_stale_job_def demo_job_def)
  have stored: "demo_stale_job \<in> set (jobs (demo_world []))"
    by (simp add: demo_world_def)
  have deleted: "Delete demo_job DeletePropagationForeground None \<in>
      set [Delete demo_job DeletePropagationForeground None,
       DeleteAllOfPods ''default'' ''report-1'' None,
       Inc jobsDeleted ''default'' ''report'',
       Event (CronJobObj ''default'' ''report'' ''uid-1'') EventTypeNormal ''JobDeleted''
         ''Deleted Job report-1 and its Pods for CronJob report to allow new runs with updated image'']"
    by simp
  from ownership_exact_deletion [OF run] stale keys stored
  have kept: "demo_stale_job \<in> set (jobs ((demo_world [])\<lparr>jobs := [demo_stale_job], pods := []\<rparr>))"
    by blast
  from ownership_exact_deletion [OF run] deleted
  have owner: "\<exists>owner \<in> set (job_ownerReferences demo_job).
      or_kind owner = ''CronJob'' \<and> or_name owner = cj_name demo_synced \<and>
      or_uid owner = cj_uid demo_synced"
    by blast
  have fields: "map or_kind (job_ownerReferences demo_stale_job) = [''CronJob''] \<and>
     map or_name (job_ownerReferences demo_stale_job) = [cj_name demo_synced] \<and>
     map or_uid (job_ownerReferences demo_stale_job) = [''uid-0''] \<and>
     cj_uid demo_synced = ''uid-1''"
    by (simp add: demo_stale_job_def demo_synced_def demo_cronjob_def)
  from run fields keys stored kept owner show ?thesis by blast
qed


subsection \<open>The ownership test and what it leads to\<close>

lemma isOwnedByCronJob_other_fields:
  "isOwnedByCronJob
     (j\<lparr>job_ownerReferences :=
          map (\<lambda>owner. owner\<lparr>or_apiVersion := av owner, or_controller := ct owner,
                             or_blockOwnerDeletion := bl owner\<rparr>) (job_ownerReferences j)\<rparr>) cj =
   isOwnedByCronJob j cj"
  by (simp add: isOwnedByCronJob_iff)

text \<open>
  Claim C10. The ownership test holds exactly when some owner reference of the
  Job has kind \<open>CronJob\<close> and the CronJob's name and UID. Changing the API
  version, the controller flag and the block-owner-deletion flag of the owner
  references changes nothing, and a listed Job that passes the test is passed to
  \<open>Delete\<close> (with foreground propagation) in every run of \<open>deleteJobsForCronJob\<close>
  that returns no error, whatever other owner references it has; after such a
  run the store holds neither the Job nor any Job of its namespace and name.
\<close>

theorem ownership_test_three_fields:
  "(isOwnedByCronJob j cj \<longleftrightarrow>
      (\<exists>owner \<in> set (job_ownerReferences j).
         or_kind owner = ''CronJob'' \<and> or_name owner = cj_name cj \<and> or_uid owner = cj_uid cj)) \<and>
   isOwnedByCronJob
     (j\<lparr>job_ownerReferences :=
          map (\<lambda>owner. owner\<lparr>or_apiVersion := av owner, or_controller := ct owner,
                             or_blockOwnerDeletion := bl owner\<rparr>) (job_ownerReferences j)\<rparr>) cj =
     isOwnedByCronJob j cj \<and>
   (deleteJobsForCronJob cj w = (None, w', tr) \<and> j \<in> set (jobs w) \<and>
    job_namespace j = cj_namespace cj \<and> isOwnedByCronJob j cj \<longrightarrow>
      Delete j DeletePropagationForeground None \<in> set tr \<and>
      j \<notin> set (jobs w') \<and> \<not> list_ex (sameJob j) (jobs w'))"
proof -
  have "Delete j DeletePropagationForeground None \<in> set tr \<and>
        j \<notin> set (jobs w') \<and> \<not> list_ex (sameJob j) (jobs w')"
    if run: "deleteJobsForCronJob cj w = (None, w', tr)" and "j \<in> set (jobs w)"
      and "job_namespace j = cj_namespace cj" and "isOwnedByCronJob j cj"
    using run
  proof (cases rule: deleteJobsForCronJob_cases)
    case (list_failed err)
    then show ?thesis by simp
  next
    case (listed w1)
    let ?items = "filter (\<lambda>j. job_namespace j = cj_namespace cj) (jobs w)"
    have ns: "\<forall>a \<in> set ?items. job_namespace a = cj_namespace cj" by simp
    from that have listed_j: "j \<in> set ?items" by simp
    have called: "Delete j DeletePropagationForeground None \<in> set tr"
      by (rule deleteJobsLoop_deletes_owned [OF listed(2) listed_j that(4)])
    from deleteJobsLoop_owned_gone [OF listed(2) ns listed_j that(4)]
    have gone: "\<forall>x \<in> set (jobs w'). \<not> sameJob j x" .
    then have "\<not> list_ex (sameJob j) (jobs w')" by (simp add: list_ex_iff)
    moreover from gone have "j \<notin> set (jobs w')" by (auto simp: sameJob_def)
    ultimately show ?thesis using called by simp
  qed
  then show ?thesis
    using isOwnedByCronJob_iff [of j cj] isOwnedByCronJob_other_fields [where j = j and cj = cj and av = av and ct = ct and bl = bl]
    by blast
qed

theorem ownership_test_three_fields_witness:
  "length (job_ownerReferences demo_job) = 2 \<and>
   or_controller (job_ownerReferences demo_job ! 1) = Some False \<and>
   or_apiVersion (job_ownerReferences demo_job ! 1) = ''batch/v1beta1'' \<and>
   isOwnedByCronJob demo_job demo_synced \<and>
   demo_job \<in> set (jobs (demo_world [])) \<and>
   job_namespace demo_job = cj_namespace demo_synced \<and>
   fst (deleteJobsForCronJob demo_synced (demo_world [])) = None \<and>
   Delete demo_job DeletePropagationForeground None \<in>
     set (snd (snd (deleteJobsForCronJob demo_synced (demo_world [])))) \<and>
   demo_job \<notin> set (jobs (fst (snd (deleteJobsForCronJob demo_synced (demo_world []))))) \<and>
   \<not> list_ex (sameJob demo_job)
        (jobs (fst (snd (deleteJobsForCronJob demo_synced (demo_world [])))))"
proof -
  have owned: "isOwnedByCronJob demo_job demo_synced"
    by (simp add: isOwnedByCronJob_def demo_job_def demo_synced_def demo_cronjob_def)
  have stored: "demo_job \<in> set (jobs (demo_world []))"
    by (simp add: demo_world_def)
  have ns: "job_namespace demo_job = cj_namespace demo_synced"
    by (simp add: demo_job_def demo_synced_def demo_cronjob_def)
  have refs: "length (job_ownerReferences demo_job) = 2 \<and>
      or_controller (job_ownerReferences demo_job ! 1) = Some False \<and>
      or_apiVersion (job_ownerReferences demo_job ! 1) = ''batch/v1beta1''"
    by (simp add: demo_job_def)
  obtain res w' tr where run: "deleteJobsForCronJob demo_synced (demo_world []) = (res, w', tr)"
    by (cases "deleteJobsForCronJob demo_synced (demo_world [])")
  with demo_deleteJobs have res: "res = None" by simp
  from ownership_test_three_fields [where j = demo_job and cj = demo_synced
      and w = "demo_world []" and w' = w' and tr = tr] run [unfolded res] owned stored ns
  have "Delete demo_job DeletePropagationForeground None \<in> set tr \<and>
        demo_job \<notin> set (jobs w') \<and> \<not> list_ex (sameJob demo_job) (jobs w')"
    by blast
  with owned stored ns refs show ?thesis by (simp add: run res)
qed

subsection \<open>Matching\<close>

lemma matchCronJobs_filter:
  "matchCronJobs d items out =
   out @ filter (\<lambda>cj. labelMatches cj d \<or> annotationMatches cj d \<or> hasSharedImage cj d) items"
  by (induction items arbitrary: out) auto

lemma matchWithRules_filter:
  "matchWithRules rules d items = filter (\<lambda>cj. \<exists>rule \<in> set rules. rule cj d) items"
  by (induction items) (auto simp: list_ex_iff)

lemma count_list_filter:
  "count_list (filter P xs) x = (if P x then count_list xs x else 0)"
  by (induction xs) auto

text \<open>
  Claim C5. The matched list holds a candidate that satisfies at least one rule
  exactly as often as the candidate list holds it (once, for a list without
  repetition), however many of the three rules it satisfies, and holds no other
  candidate; trying the three rules in any order gives the same list.
\<close>

theorem match_exclusive:
  "(\<forall>s. count_list (matchCronJobs d items []) s =
          (if labelMatches s d \<or> annotationMatches s d \<or> hasSharedImage s d
           then count_list items s else 0)) \<and>
   (distinct items \<longrightarrow> distinct (matchCronJobs d items [])) \<and>
   (set rules = {labelMatches, annotationMatches, hasSharedImage} \<longrightarrow>
      matchWithRules rules d items = matchCronJobs d items [])"
  by (simp add: matchCronJobs_filter matchWithRules_filter count_list_filter)

lemma demo_matches:
  "labelMatches demo_cronjob demo_deploy \<and> annotationMatches demo_cronjob demo_deploy \<and>
   hasSharedImage demo_cronjob demo_deploy"
  by (simp add: labelMatches_def annotationMatches_def hasSharedImage_def demo_cronjob_def
      demo_deploy_def)

theorem match_exclusive_witness:
  "labelMatches demo_cronjob demo_deploy \<and> annotationMatches demo_cronjob demo_deploy \<and>
   hasSharedImage demo_cronjob demo_deploy \<and>
   distinct [demo_cronjob] \<and>
   matchCronJobs demo_deploy [demo_cronjob] [] = [demo_cronjob] \<and>
   count_list (matchCronJobs demo_deploy [demo_cronjob] []) demo_cronjob = 1 \<and>
   set [hasSharedImage, annotationMatches, labelMatches] =
     {labelMatches, annotationMatches,
      hasSharedImage :: (unit, unit) cronjob \<Rightarrow> unit deployment \<Rightarrow> bool} \<and>
   matchWithRules [hasSharedImage, annotationMatches, labelMatches] demo_deploy [demo_cronjob] =
     matchCronJobs demo_deploy [demo_cronjob] []"
proof -
  have order: "set [hasSharedImage, annotationMatches, labelMatches] =
     {labelMatches, annotationMatches,
      hasSharedImage :: (unit, unit) cronjob \<Rightarrow> unit deployment \<Rightarrow> bool}"
    by auto
  have run: "matchCronJobs demo_deploy [demo_cronjob] [] = [demo_cronjob]"
    by (simp add: demo_matches)
  from match_exclusive [of demo_deploy "[demo_cronjob]"
      "[hasSharedImage, annotationMatches, labelMatches]"] order
  have "count_list (matchCronJobs demo_deploy [demo_cronjob] []) demo_cronjob = 1 \<and>
    matchWithRules [hasSharedImage, annotationMatches, labelMatches] demo_deploy [demo_cronjob] =
      matchCronJobs demo_deploy [demo_cronjob] []"
    using demo_matches by simp
  with demo_matches order run show ?thesis by simp
qed


subsection \<open>Counting what the deletion of Jobs reports\<close>

lemma jobDeletedMessage_inject:
  "jobDeletedMessage a c = jobDeletedMessage b c \<longleftrightarrow> a = b"
  unfolding jobDeletedMessage_def
  by (simp only: same_append_eq append_same_eq append_assoc [symmetric])

lemma deleteJobsLoop_counts:
  "deleteJobsLoop cj items w = (res, w', tr) \<Longrightarrow>
   count_list tr (Inc jobsDeleted (cj_namespace cj) (cj_name cj)) = length (filter isPodsDeleted tr) \<and>
   length (filter (isIncOf c) tr) = (if c = jobsDeleted then length (filter isPodsDeleted tr) else 0) \<and>
   length (filter (isEventOfType EventTypeNormal) tr) = length (filter isPodsDeleted tr) \<and>
   filter (isEventOfType EventTypeWarning) tr = []"
proof (induction items arbitrary: w res w' tr)
  case Nil
  then show ?case by simp
next
  case (Cons a items)
  from Cons.prems(1) show ?case
  proof (cases rule: deleteJobsLoop_Cons_cases)
    case skipped
    with Cons.IH show ?thesis by simp
  next
    case (delete_failed err)
    then show ?thesis by simp
  next
    case (pods_failed err w1)
    then show ?thesis by simp
  next
    case (deleted w1 w2 tr')
    with Cons.IH [OF deleted(4)] show ?thesis by (cases "c = jobsDeleted") simp_all
  qed
qed

lemma deleteJobsLoop_once:
  assumes "deleteJobsLoop cj items w = (res, w', tr)"
    and "\<forall>j \<in> set items. job_namespace j = cj_namespace cj"
  shows "count_list tr (Event (cronJobRef cj) EventTypeNormal ''JobDeleted''
                          (jobDeletedMessage n (cj_name cj))) =
           count_list tr (DeleteAllOfPods (cj_namespace cj) n None) \<and>
         count_list tr (DeleteAllOfPods (cj_namespace cj) n None) \<le> 1 \<and>
         ((\<forall>x \<in> set (jobs w). \<not> (job_namespace x = cj_namespace cj \<and> job_name x = n)) \<longrightarrow>
            (\<forall>r. DeleteAllOfPods (cj_namespace cj) n r \<notin> set tr))"
  using assms
proof (induction items arbitrary: w res w' tr n)
  case Nil
  then show ?case by simp
next
  case (Cons a items)
  from Cons.prems(2) have ns: "job_namespace a = cj_namespace cj"
    and rest: "\<forall>j \<in> set items. job_namespace j = cj_namespace cj" by simp_all
  let ?m = "job_name a"
  have other: "n \<noteq> ?m"
    if "client_Delete a DeletePropagationForeground w = (None, w1)"
      and "\<forall>x \<in> set (jobs w). \<not> (job_namespace x = cj_namespace cj \<and> job_name x = n)"
    for w1
  proof -
    from client_Delete_None [OF that(1)] have "\<exists>x \<in> set (jobs w). sameJob a x" by simp
    with that(2) ns show ?thesis by (auto simp: sameJob_def)
  qed
  from Cons.prems(1) show ?case
  proof (cases rule: deleteJobsLoop_Cons_cases)
    case skipped
    from Cons.IH [OF skipped(2) rest] show ?thesis .
  next
    case (delete_failed err)
    then show ?thesis by simp
  next
    case (pods_failed err w1)
    with other [OF pods_failed(2)] show ?thesis by auto
  next
    case (deleted w1 w2 tr')
    from delete_then_pods [OF deleted(2) deleted(3) [folded ns]]
    have w2: "jobs w2 = filter (\<lambda>x. \<not> sameJob a x) (jobs w)" .
    note IH = Cons.IH [OF deleted(4) rest]
    have gone: "\<forall>x \<in> set (jobs w2). \<not> (job_namespace x = cj_namespace cj \<and> job_name x = ?m)"
      using ns by (auto simp: w2 sameJob_def)
    with IH [of ?m] have none: "\<forall>r. DeleteAllOfPods (cj_namespace cj) ?m r \<notin> set tr'"
      by blast
    then have zero: "count_list tr' (DeleteAllOfPods (cj_namespace cj) ?m None) = 0"
      by (simp add: count_list_0_iff)
    have absent: "(\<forall>r. DeleteAllOfPods (cj_namespace cj) n r \<notin> set tr') \<and> n \<noteq> ?m"
      if "\<forall>x \<in> set (jobs w). \<not> (job_namespace x = cj_namespace cj \<and> job_name x = n)"
    proof -
      from that have "\<forall>x \<in> set (jobs w2). \<not> (job_namespace x = cj_namespace cj \<and> job_name x = n)"
        by (simp add: w2)
      with IH [of n] other [OF deleted(2) that] show ?thesis by blast
    qed
    show ?thesis
    proof (cases "n = ?m")
      case True
      with zero IH [of n] absent show ?thesis
        by (auto simp: deleted(5))
    next
      case False
      with IH [of n] absent show ?thesis
        by (auto simp: deleted(5) jobDeletedMessage_inject)
    qed
  qed
qed

text \<open>
  A failed pod deletion ends the run with its error, right after the \<open>Delete\<close> of
  the Job of that name; no pod deletion for that name went through before.
\<close>

lemma deleteJobsLoop_pods_failed:
  assumes "deleteJobsLoop cj items w = (res, w', tr)"
    and "\<forall>j \<in> set items. job_namespace j = cj_namespace cj"
    and "DeleteAllOfPods ns n (Some err) \<in> set tr"
  shows "res = Some err \<and>
         (\<exists>pre j. tr = pre @ [Delete j DeletePropagationForeground None,
                               DeleteAllOfPods ns n (Some err)] \<and> job_name j = n) \<and>
         DeleteAllOfPods ns n None \<notin> set tr"
  using assms
proof (induction items arbitrary: w res w' tr)
  case Nil
  then show ?case by simp
next
  case (Cons a items)
  from Cons.prems(2) have ns: "job_namespace a = cj_namespace cj"
    and rest: "\<forall>j \<in> set items. job_namespace j = cj_namespace cj" by simp_all
  from Cons.prems(1) show ?case
  proof (cases rule: deleteJobsLoop_Cons_cases)
    case skipped
    from Cons.IH [OF skipped(2) rest Cons.prems(3)] show ?thesis .
  next
    case (delete_failed e)
    with Cons.prems(3) show ?thesis by simp
  next
    case (pods_failed e w1)
    with Cons.prems(3) show ?thesis by auto
  next
    case (deleted w1 w2 tr')
    from deleted(5) Cons.prems(3) have failed: "DeleteAllOfPods ns n (Some err) \<in> set tr'"
      by simp
    from Cons.IH [OF deleted(4) rest failed] obtain pre j where
      res: "res = Some err"
      and tr': "tr' = pre @ [Delete j DeletePropagationForeground None,
                            DeleteAllOfPods ns n (Some err)]"
      and j: "job_name j = n"
      and none: "DeleteAllOfPods ns n None \<notin> set tr'"
      by blast
    from delete_then_pods [OF deleted(2) deleted(3) [folded ns]]
    have "\<forall>x \<in> set (jobs w2). \<not> (job_namespace x = cj_namespace cj \<and> job_name x = job_name a)"
      using ns by (auto simp: sameJob_def)
    with deleteJobsLoop_once [OF deleted(4) rest, of "job_name a"]
    have "\<forall>r. DeleteAllOfPods (cj_namespace cj) (job_name a) r \<notin> set tr'" by blast
    with failed have "\<not> (ns = cj_namespace cj \<and> n = job_name a)" by blast
    with none have "DeleteAllOfPods ns n None \<notin> set tr"
      by (auto simp: deleted(5))
    moreover have "\<exists>pre j. tr = pre @ [Delete j DeletePropagationForeground None,
                               DeleteAllOfPods ns n (Some err)] \<and> job_name j = n"
      unfolding deleted(5) tr' append_assoc [symmetric] using j by blast
    ultimately show ?thesis using res by simp
  qed
qed

lemma deleteJobsLoop_delete_failed:
  "deleteJobsLoop cj items w = (res, w', tr) \<Longrightarrow> Delete j policy (Some err) \<in> set tr \<Longrightarrow>
   res = Some err \<and> (\<exists>pre. tr = pre @ [Delete j policy (Some err)])"
proof (induction items arbitrary: w res w' tr)
  case Nil
  then show ?case by simp
next
  case (Cons a items)
  from Cons.prems(1) show ?case
  proof (cases rule: deleteJobsLoop_Cons_cases)
    case skipped
    from Cons.IH [OF skipped(2) Cons.prems(2)] show ?thesis .
  next
    case (delete_failed e)
    with Cons.prems(2) show ?thesis by simp
  next
    case (pods_failed e w1)
    with Cons.prems(2) show ?thesis by simp
  next
    case (deleted w1 w2 tr')
    from deleted(5) Cons.prems(2) have "Delete j policy (Some err) \<in> set tr'" by simp
    from Cons.IH [OF deleted(4) this] obtain pre where
      "res = Some err" and tr': "tr' = pre @ [Delete j policy (Some err)]"
      by blast
    moreover have "\<exists>pre. tr = pre @ [Delete j policy (Some err)]"
      unfolding deleted(5) tr' append_assoc [symmetric] by blast
    ultimately show ?thesis by simp
  qed
qed


lemma deleteJobsLoop_pods_after_job:
  "deleteJobsLoop cj items w = (res, w', tr) \<Longrightarrow> DeleteAllOfPods ns n r \<in> set tr \<Longrightarrow>
   ns = cj_namespace cj \<and> (\<exists>j. job_name j = n \<and> Delete j DeletePropagationForeground None \<in> set tr)"
proof (induction items arbitrary: w res w' tr)
  case Nil
  then show ?case by simp
next
  case (Cons a items)
  from Cons.prems(1) show ?case
  proof (cases rule: deleteJobsLoop_Cons_cases)
    case skipped
    with Cons.IH Cons.prems(2) show ?thesis by simp
  next
    case (delete_failed err)
    with Cons.prems(2) show ?thesis by simp
  next
    case (pods_failed err w1)
    with Cons.prems(2) show ?thesis by auto
  next
    case (deleted w1 w2 tr')
    with Cons.IH [OF deleted(4)] Cons.prems(2) show ?thesis by auto
  qed
qed

text \<open>A Job whose \<open>Delete\<close> and whose pod deletion went through is gone from the store.\<close>

lemma deleteJobsLoop_deleted_gone:
  assumes "deleteJobsLoop cj items w = (res, w', tr)"
    and "\<forall>j \<in> set items. job_namespace j = cj_namespace cj"
    and "Delete j DeletePropagationForeground None \<in> set tr"
    and "DeleteAllOfPods (cj_namespace cj) (job_name j) None \<in> set tr"
  shows "\<forall>x \<in> set (jobs w'). \<not> sameJob j x"
  using assms
proof (induction items arbitrary: w res w' tr)
  case Nil
  then show ?case by simp
next
  case (Cons a items)
  from Cons.prems(2) have ns: "job_namespace a = cj_namespace cj"
    and rest: "\<forall>j \<in> set items. job_namespace j = cj_namespace cj" by simp_all
  from deleteJobsLoop_Delete_owned [OF Cons.prems(1) Cons.prems(3)] Cons.prems(2)
  have j_ns: "job_namespace j = cj_namespace cj" by blast
  from Cons.prems(1) show ?case
  proof (cases rule: deleteJobsLoop_Cons_cases)
    case skipped
    from Cons.IH [OF skipped(2) rest Cons.prems(3) Cons.prems(4)] show ?thesis .
  next
    case (delete_failed err)
    with Cons.prems(3) show ?thesis by simp
  next
    case (pods_failed err w1)
    with Cons.prems(4) show ?thesis by simp
  next
    case (deleted w1 w2 tr')
    show ?thesis
    proof (cases "sameJob a j")
      case True
      from delete_then_pods [OF deleted(2) deleted(3) [folded ns]]
      have "\<forall>x \<in> set (jobs w2). \<not> sameJob a x" by simp
      with True have "\<forall>x \<in> set (jobs w2). \<not> sameJob j x" by (simp add: sameJob_def)
      with deleteJobsLoop_jobs_subset [OF deleted(4)] show ?thesis by blast
    next
      case False
      with ns j_ns have name: "job_name j \<noteq> job_name a" and other: "j \<noteq> a"
        by (auto simp: sameJob_def)
      from other deleted(5) Cons.prems(3)
      have called: "Delete j DeletePropagationForeground None \<in> set tr'" by simp
      from name deleted(5) Cons.prems(4)
      have pods: "DeleteAllOfPods (cj_namespace cj) (job_name j) None \<in> set tr'" by simp
      from Cons.IH [OF deleted(4) rest called pods] show ?thesis .
    qed
  qed
qed

text \<open>
  Claim C8, as the code has it. In a run of \<open>deleteJobsForCronJob\<close>: for a Job
  whose \<open>Delete\<close> went through, the \<open>JobDeleted\<close> event naming it is recorded
  exactly once when the deletion of its pods went through as well, and not at
  all otherwise; the increments of the jobs-deleted counter (all of them keyed
  by the CronJob's namespace and name) and the normal events are as many as the
  pod deletions that went through, of which there is one for a Job name at
  most, after the \<open>Delete\<close> of the Job of that name; a Job whose \<open>Delete\<close> and
  pod deletion went through is no longer in the store. When the deletion of a
  Job's pods fails, the run returns that very error, the failed call is its
  last effect and comes right after the \<open>Delete\<close> of the Job, no pod deletion
  for that Job went through, and no \<open>JobDeleted\<close> event names the Job; a
  failed \<open>Delete\<close> is returned as well.
\<close>

theorem jobs_deleted_accounting:
  assumes "deleteJobsForCronJob cj w = (res, w', tr)"
  shows "(\<forall>j. Delete j DeletePropagationForeground None \<in> set tr \<longrightarrow>
            count_list tr (Event (cronJobRef cj) EventTypeNormal ''JobDeleted''
                             (jobDeletedMessage (job_name j) (cj_name cj))) =
              (if DeleteAllOfPods (cj_namespace cj) (job_name j) None \<in> set tr then 1 else 0)) \<and>
         count_list tr (Inc jobsDeleted (cj_namespace cj) (cj_name cj)) =
           length (filter isPodsDeleted tr) \<and>
         length (filter (isIncOf jobsDeleted) tr) = length (filter isPodsDeleted tr) \<and>
         length (filter (isEventOfType EventTypeNormal) tr) = length (filter isPodsDeleted tr) \<and>
         (\<forall>ns n. DeleteAllOfPods ns n None \<in> set tr \<longrightarrow>
            ns = cj_namespace cj \<and> count_list tr (DeleteAllOfPods ns n None) = 1 \<and>
            (\<exists>j. job_name j = n \<and> Delete j DeletePropagationForeground None \<in> set tr)) \<and>
         (\<forall>ns n err. DeleteAllOfPods ns n (Some err) \<in> set tr \<longrightarrow>
            res = Some err \<and>
            (\<exists>pre j. tr = pre @ [Delete j DeletePropagationForeground None,
                                  DeleteAllOfPods ns n (Some err)] \<and> job_name j = n) \<and>
            DeleteAllOfPods ns n None \<notin> set tr \<and>
            count_list tr (Event (cronJobRef cj) EventTypeNormal ''JobDeleted''
                             (jobDeletedMessage n (cj_name cj))) = 0) \<and>
         (\<forall>j policy err. Delete j policy (Some err) \<in> set tr \<longrightarrow> res = Some err) \<and>
         (\<forall>j. Delete j DeletePropagationForeground None \<in> set tr \<and>
              DeleteAllOfPods (cj_namespace cj) (job_name j) None \<in> set tr \<longrightarrow>
              \<not> list_ex (sameJob j) (jobs w'))"
  using assms
proof (cases rule: deleteJobsForCronJob_cases)
  case (list_failed err)
  then show ?thesis by simp
next
  case (listed w1)
  let ?items = "filter (\<lambda>j. job_namespace j = cj_namespace cj) (jobs w)"
  have ns: "\<forall>j \<in> set ?items. job_namespace j = cj_namespace cj" by simp
  have once: "count_list tr (Event (cronJobRef cj) EventTypeNormal ''JobDeleted''
                               (jobDeletedMessage n (cj_name cj))) =
                (if DeleteAllOfPods (cj_namespace cj) n None \<in> set tr then 1 else 0)" for n
  proof -
    from deleteJobsLoop_once [OF listed(2) ns, of n]
    have eq: "count_list tr (Event (cronJobRef cj) EventTypeNormal ''JobDeleted''
                               (jobDeletedMessage n (cj_name cj))) =
                count_list tr (DeleteAllOfPods (cj_namespace cj) n None)"
      and le: "count_list tr (DeleteAllOfPods (cj_namespace cj) n None) \<le> 1"
      by simp_all
    show ?thesis
    proof (cases "DeleteAllOfPods (cj_namespace cj) n None \<in> set tr")
      case True
      then have "count_list tr (DeleteAllOfPods (cj_namespace cj) n None) > 0"
        using count_list_0_iff [of tr "DeleteAllOfPods (cj_namespace cj) n None"] by auto
      with le eq True show ?thesis by simp
    next
      case False
      then have "count_list tr (DeleteAllOfPods (cj_namespace cj) n None) = 0"
        by (simp add: count_list_0_iff)
      with eq False show ?thesis by simp
    qed
  qed
  have single: "count_list tr (DeleteAllOfPods (cj_namespace cj) n None) = 1"
    if "DeleteAllOfPods (cj_namespace cj) n None \<in> set tr" for n
  proof -
    from deleteJobsLoop_once [OF listed(2) ns, of n]
    have "count_list tr (DeleteAllOfPods (cj_namespace cj) n None) \<le> 1" by simp
    moreover from that have "count_list tr (DeleteAllOfPods (cj_namespace cj) n None) \<noteq> 0"
      by (simp add: count_list_0_iff)
    ultimately show ?thesis by simp
  qed
  have pods: "ns = cj_namespace cj \<and> count_list tr (DeleteAllOfPods ns n None) = 1 \<and>
              (\<exists>j. job_name j = n \<and> Delete j DeletePropagationForeground None \<in> set tr)"
    if "DeleteAllOfPods ns n None \<in> set tr" for ns n
    using deleteJobsLoop_pods_after_job [OF listed(2) that] single that by simp
  have failed: "res = Some err \<and>
            (\<exists>pre j. tr = pre @ [Delete j DeletePropagationForeground None,
                                  DeleteAllOfPods ns n (Some err)] \<and> job_name j = n) \<and>
            DeleteAllOfPods ns n None \<notin> set tr \<and>
            count_list tr (Event (cronJobRef cj) EventTypeNormal ''JobDeleted''
                             (jobDeletedMessage n (cj_name cj))) = 0"
    if "DeleteAllOfPods ns n (Some err) \<in> set tr" for ns n err
  proof -
    note ended = deleteJobsLoop_pods_failed [OF listed(2) ns that]
    from deleteJobsLoop_pods_after_job [OF listed(2) that]
    have "ns = cj_namespace cj" by simp
    with ended once [of n]
    have "count_list tr (Event (cronJobRef cj) EventTypeNormal ''JobDeleted''
                             (jobDeletedMessage n (cj_name cj))) = 0"
      by simp
    with ended show ?thesis by simp
  qed
  have refused: "res = Some err" if "Delete j policy (Some err) \<in> set tr" for j policy err
    using deleteJobsLoop_delete_failed [OF listed(2) that] by simp
  from deleteJobsLoop_counts [OF listed(2), of jobsDeleted] pods once
  have counted: "(\<forall>j. Delete j DeletePropagationForeground None \<in> set tr \<longrightarrow>
            count_list tr (Event (cronJobRef cj) EventTypeNormal ''JobDeleted''
                             (jobDeletedMessage (job_name j) (cj_name cj))) =
              (if DeleteAllOfPods (cj_namespace cj) (job_name j) None \<in> set tr then 1 else 0)) \<and>
         count_list tr (Inc jobsDeleted (cj_namespace cj) (cj_name cj)) =
           length (filter isPodsDeleted tr) \<and>
         length (filter (isIncOf jobsDeleted) tr) = length (filter isPodsDeleted tr) \<and>
         length (filter (isEventOfType EventTypeNormal) tr) = length (filter isPodsDeleted tr) \<and>
         (\<forall>ns n. DeleteAllOfPods ns n None \<in> set tr \<longrightarrow>
            ns = cj_namespace cj \<and> count_list tr (DeleteAllOfPods ns n None) = 1 \<and>
            (\<exists>j. job_name j = n \<and> Delete j DeletePropagationForeground None \<in> set tr))"
    by simp
  have pods_failed: "\<forall>ns n err. DeleteAllOfPods ns n (Some err) \<in> set tr \<longrightarrow>
            res = Some err \<and>
            (\<exists>pre j. tr = pre @ [Delete j DeletePropagationForeground None,
                                  DeleteAllOfPods ns n (Some err)] \<and> job_name j = n) \<and>
            DeleteAllOfPods ns n None \<notin> set tr \<and>
            count_list tr (Event (cronJobRef cj) EventTypeNormal ''JobDeleted''
                             (jobDeletedMessage n (cj_name cj))) = 0"
    by (intro allI impI) (rule failed)
  have delete_failed: "\<forall>j policy err. Delete j policy (Some err) \<in> set tr \<longrightarrow> res = Some err"
    by (intro allI impI) (rule refused)
  have removed: "\<forall>j. Delete j DeletePropagationForeground None \<in> set tr \<and>
              DeleteAllOfPods (cj_namespace cj) (job_name j) None \<in> set tr \<longrightarrow>
              \<not> list_ex (sameJob j) (jobs w')"
  proof (intro allI impI)
    fix j
    assume "Delete j DeletePropagationForeground None \<in> set tr \<and>
              DeleteAllOfPods (cj_namespace cj) (job_name j) None \<in> set tr"
    then have "\<forall>x \<in> set (jobs w'). \<not> sameJob j x"
      using deleteJobsLoop_deleted_gone [OF listed(2) ns] by blast
    then show "\<not> list_ex (sameJob j) (jobs w')" by (simp add: list_ex_iff)
  qed
  from counted pods_failed delete_failed removed show ?thesis
    by (elim conjE) (intro conjI; assumption)
qed

lemma demo_deleteJobs_pods_fail:
  "deleteJobsForCronJob demo_synced (demo_world [None, None, Some demo_unavailable]) =
     (Some demo_unavailable, (demo_world [])\<lparr>terminating := [(''default'', ''report-1'')]\<rparr>,
      [Delete demo_job DeletePropagationForeground None,
       DeleteAllOfPods ''default'' ''report-1'' (Some demo_unavailable)])"
  by (simp add: deleteJobsForCronJob_def client_ListJobs_def next_fault_def demo_world_def
      isOwnedByCronJob_def client_Delete_def client_DeleteAllOfPods_def podOfJob_def
      demo_synced_def demo_cronjob_def demo_job_def demo_stale_job_def sameJob_def demo_pod_def)

theorem jobs_deleted_accounting_witness:
  "Delete demo_job DeletePropagationForeground None \<in>
     set (snd (snd (deleteJobsForCronJob demo_synced (demo_world [])))) \<and>
   DeleteAllOfPods (cj_namespace demo_synced) (job_name demo_job) None \<in>
     set (snd (snd (deleteJobsForCronJob demo_synced (demo_world [])))) \<and>
   count_list (snd (snd (deleteJobsForCronJob demo_synced (demo_world []))))
     (Event (cronJobRef demo_synced) EventTypeNormal ''JobDeleted''
        (jobDeletedMessage (job_name demo_job) (cj_name demo_synced))) = 1 \<and>
   count_list (snd (snd (deleteJobsForCronJob demo_synced (demo_world []))))
     (Inc jobsDeleted (cj_namespace demo_synced) (cj_name demo_synced)) = 1 \<and>
   \<not> list_ex (sameJob demo_job)
        (jobs (fst (snd (deleteJobsForCronJob demo_synced (demo_world []))))) \<and>
   DeleteAllOfPods ''default'' ''report-1'' (Some demo_unavailable) \<in>
     set (snd (snd (deleteJobsForCronJob demo_synced
                      (demo_world [None, None, Some demo_unavailable])))) \<and>
   fst (deleteJobsForCronJob demo_synced (demo_world [None, None, Some demo_unavailable])) =
     Some demo_unavailable \<and>
   count_list (snd (snd (deleteJobsForCronJob demo_synced
                           (demo_world [None, None, Some demo_unavailable]))))
     (Event (cronJobRef demo_synced) EventTypeNormal ''JobDeleted''
        (jobDeletedMessage ''report-1'' (cj_name demo_synced))) = 0"
proof -
  have names: "cj_namespace demo_synced = ''default'' \<and> job_name demo_job = ''report-1''"
    by (simp add: demo_synced_def demo_cronjob_def demo_job_def)
  from jobs_deleted_accounting [OF demo_deleteJobs] names
  have completed: "Delete demo_job DeletePropagationForeground None \<in>
     set (snd (snd (deleteJobsForCronJob demo_synced (demo_world [])))) \<and>
   DeleteAllOfPods (cj_namespace demo_synced) (job_name demo_job) None \<in>
     set (snd (snd (deleteJobsForCronJob demo_synced (demo_world [])))) \<and>
   count_list (snd (snd (deleteJobsForCronJob demo_synced (demo_world []))))
     (Event (cronJobRef demo_synced) EventTypeNormal ''JobDeleted''
        (jobDeletedMessage (job_name demo_job) (cj_name demo_synced))) = 1 \<and>
   count_list (snd (snd (deleteJobsForCronJob demo_synced (demo_world []))))
     (Inc jobsDeleted (cj_namespace demo_synced) (cj_name demo_synced)) = 1 \<and>
   \<not> list_ex (sameJob demo_job)
        (jobs (fst (snd (deleteJobsForCronJob demo_synced (demo_world [])))))"
    by (simp add: demo_deleteJobs)
  have entry: "DeleteAllOfPods ''default'' ''report-1'' (Some demo_unavailable) \<in>
     set [Delete demo_job DeletePropagationForeground None,
          DeleteAllOfPods ''default'' ''report-1'' (Some demo_unavailable)]"
    by simp
  note failing = jobs_deleted_accounting [OF demo_deleteJobs_pods_fail]
  note pods_failing = failing [THEN conjunct2, THEN conjunct2, THEN conjunct2, THEN conjunct2,
      THEN conjunct2, THEN conjunct1, rule_format, OF entry]
  from pods_failing
  have "count_list [Delete demo_job DeletePropagationForeground None,
          DeleteAllOfPods ''default'' ''report-1'' (Some demo_unavailable)]
     (Event (cronJobRef demo_synced) EventTypeNormal ''JobDeleted''
        (jobDeletedMessage ''report-1'' (cj_name demo_synced)) :: (unit, unit) effect) = 0"
    by (elim conjE) assumption
  with completed entry show ?thesis by (simp add: demo_deleteJobs_pods_fail)
qed

text \<open>
  Claim C8 as stated fails when the deletion of the pods fails after the
  \<open>Delete\<close> of the Job went through: the Job is under foreground deletion, the
  run returns the error, the jobs-deleted counter is not incremented and no
  event is recorded.
\<close>

theorem jobs_deleted_accounting_counterexample:
  "deleteJobsForCronJob demo_synced (demo_world [None, None, Some demo_unavailable]) =
     (Some demo_unavailable, (demo_world [])\<lparr>terminating := [(''default'', ''report-1'')]\<rparr>,
      [Delete demo_job DeletePropagationForeground None,
       DeleteAllOfPods ''default'' ''report-1'' (Some demo_unavailable)]) \<and>
   isOwnedByCronJob demo_job demo_synced \<and>
   demo_job \<in> set (jobs (demo_world [None, None, Some demo_unavailable])) \<and>
   (job_namespace demo_job, job_name demo_job) \<in>
     set (terminating ((demo_world [])\<lparr>terminating := [(''default'', ''report-1'')]\<rparr>)) \<and>
   count_list [Delete demo_job DeletePropagationForeground None,
               DeleteAllOfPods ''default'' ''report-1'' (Some demo_unavailable)]
     (Inc jobsDeleted (cj_namespace demo_synced) (cj_name demo_synced)) = 0 \<and>
   filter (isEventOfType EventTypeNormal)
     [Delete demo_job DeletePropagationForeground None,
      DeleteAllOfPods ''default'' ''report-1'' (Some demo_unavailable)] = []"
proof -
  have store: "demo_job \<in> set (jobs (demo_world [None, None, Some demo_unavailable])) \<and>
      (job_namespace demo_job, job_name demo_job) \<in>
        set (terminating ((demo_world [])\<lparr>terminating := [(''default'', ''report-1'')]\<rparr>))"
    by (simp add: demo_world_def demo_job_def)
  have owned: "isOwnedByCronJob demo_job demo_synced"
    by (simp add: isOwnedByCronJob_def demo_job_def demo_synced_def demo_cronjob_def)
  from store owned demo_deleteJobs_pods_fail show ?thesis
    by simp
qed


subsection \<open>What a run of the Job deletion leaves alone\<close>

lemma deleteJobsLoop_cronjobs:
  "deleteJobsLoop cj items w = (res, w', tr) \<Longrightarrow>
   cronjobs w' = cronjobs w \<and> deployments w' = deployments w"
proof (induction items arbitrary: w res w' tr)
  case Nil
  then show ?case by simp
next
  case (Cons a items)
  from Cons.prems(1) show ?case
  proof (cases rule: deleteJobsLoop_Cons_cases)
    case skipped
    with Cons.IH show ?thesis by simp
  next
    case (delete_failed err)
    then show ?thesis by (auto dest!: client_Delete_Some)
  next
    case (pods_failed err w1)
    then show ?thesis by (auto dest!: client_Delete_None client_DeleteAllOfPods_store)
  next
    case (deleted w1 w2 tr')
    with Cons.IH [OF deleted(4)] show ?thesis
      by (auto dest!: client_Delete_None client_DeleteAllOfPods_store)
  qed
qed

lemma deleteJobsForCronJob_cronjobs:
  assumes "deleteJobsForCronJob cj w = (res, w', tr)"
  shows "cronjobs w' = cronjobs w \<and> deployments w' = deployments w"
  using assms
proof (cases rule: deleteJobsForCronJob_cases)
  case (list_failed err)
  then show ?thesis by (auto dest: client_ListJobs_store)
next
  case (listed w1)
  with deleteJobsLoop_cronjobs [OF listed(2)] show ?thesis
    by (auto dest: client_ListJobs_store)
qed

lemma deleteJobsLoop_effects:
  "deleteJobsLoop cj items w = (res, w', tr) \<Longrightarrow> e \<in> set tr \<Longrightarrow>
   perCronJob e \<and> concerns e cj \<and> \<not> isIncOf syncErrors e \<and>
   \<not> isEventOfType EventTypeWarning e \<and> (\<forall>u r. e \<noteq> Update u r)"
proof (induction items arbitrary: w res w' tr)
  case Nil
  then show ?case by simp
next
  case (Cons a items)
  from Cons.prems(1) show ?case
  proof (cases rule: deleteJobsLoop_Cons_cases)
    case skipped
    with Cons.IH Cons.prems(2) show ?thesis by simp
  next
    case (delete_failed err)
    with Cons.prems(2) show ?thesis by auto
  next
    case (pods_failed err w1)
    with Cons.prems(2) show ?thesis by auto
  next
    case (deleted w1 w2 tr')
    with Cons.IH [OF deleted(4)] Cons.prems(2) show ?thesis
      by (auto simp: cronJobRef_def)
  qed
qed

lemma deleteJobsForCronJob_effects:
  assumes "deleteJobsForCronJob cj w = (res, w', tr)" and "e \<in> set tr"
  shows "perCronJob e \<and> concerns e cj \<and> \<not> isIncOf syncErrors e \<and>
         \<not> isEventOfType EventTypeWarning e \<and> (\<forall>u r. e \<noteq> Update u r)"
  using assms(1)
proof (cases rule: deleteJobsForCronJob_cases)
  case (list_failed err)
  with assms(2) show ?thesis by simp
next
  case (listed w1)
  from deleteJobsLoop_effects [OF listed(2) assms(2)] show ?thesis .
qed

subsection \<open>The cases of the reconcile loop\<close>

lemma reconcileLoop_Cons_cases:
  assumes "reconcileLoop deploy (cj0 # rest) w = (res, w', tr)"
  obtains
    (in_sync) "\<not> snd (syncImages deploy cj0)" "reconcileLoop deploy rest w = (res, w', tr)"
  | (update_failed) err where "snd (syncImages deploy cj0)"
      "client_Update (fst (syncImages deploy cj0)) w = (Some err, w')"
      "res = Some err"
      "tr = [Update (fst (syncImages deploy cj0)) (Some err),
             Inc syncErrors (d_namespace deploy) (d_name deploy),
             Event (deploymentRef deploy) EventTypeWarning ''UpdateFailed''
               (updateFailedMessage (cj_name (fst (syncImages deploy cj0))) err)]"
  | (delete_failed) err w1 trd where "snd (syncImages deploy cj0)"
      "client_Update (fst (syncImages deploy cj0)) w = (None, w1)"
      "deleteJobsForCronJob (fst (syncImages deploy cj0)) w1 = (Some err, w', trd)"
      "res = Some err"
      "tr = [Update (fst (syncImages deploy cj0)) None,
             Inc cronjobsUpdated (cj_namespace (fst (syncImages deploy cj0)))
               (cj_name (fst (syncImages deploy cj0))),
             Event (cronJobRef (fst (syncImages deploy cj0))) EventTypeNormal ''CronJobUpdated''
               (cronJobUpdatedMessage (d_namespace deploy) (d_name deploy))]
            @ trd @
            [Inc syncErrors (d_namespace deploy) (d_name deploy),
             Event (cronJobRef (fst (syncImages deploy cj0))) EventTypeWarning ''DeleteJobsFailed''
               (deleteJobsFailedMessage (cj_name (fst (syncImages deploy cj0))) err)]"
  | (continued) w1 w2 trd tr' where "snd (syncImages deploy cj0)"
      "client_Update (fst (syncImages deploy cj0)) w = (None, w1)"
      "deleteJobsForCronJob (fst (syncImages deploy cj0)) w1 = (None, w2, trd)"
      "reconcileLoop deploy rest w2 = (res, w', tr')"
      "tr = [Update (fst (syncImages deploy cj0)) None,
             Inc cronjobsUpdated (cj_namespace (fst (syncImages deploy cj0)))
               (cj_name (fst (syncImages deploy cj0))),
             Event (cronJobRef (fst (syncImages deploy cj0))) EventTypeNormal ''CronJobUpdated''
               (cronJobUpdatedMessage (d_namespace deploy) (d_name deploy))]
            @ trd @
            [Event (cronJobRef (fst (syncImages deploy cj0))) EventTypeNormal ''JobsRecreated''
               ''Deleted existing Jobs so future runs use the updated image'']
            @ tr'"
  using assms
  by (cases "syncImages deploy cj0") (auto split: if_splits prod.splits option.splits)

lemma findCronJobsForDeployment_Inr:
  "findCronJobsForDeployment d w = (Inr cjs, w') \<Longrightarrow>
   cjs = matchCronJobs d (filter (\<lambda>cj. cj_namespace cj = d_namespace d) (cronjobs w)) [] \<and>
   deployments w' = deployments w \<and> cronjobs w' = cronjobs w \<and> jobs w' = jobs w \<and>
   pods w' = pods w"
  by (auto simp: findCronJobsForDeployment_def split: prod.splits sum.splits
      dest: client_ListCronJobs_Inr client_ListCronJobs_store)

lemma findCronJobsForDeployment_store:
  "findCronJobsForDeployment d w = (r, w') \<Longrightarrow>
   deployments w' = deployments w \<and> cronjobs w' = cronjobs w \<and> jobs w' = jobs w \<and>
   pods w' = pods w"
  by (auto simp: findCronJobsForDeployment_def split: prod.splits sum.splits
      dest: client_ListCronJobs_store)

lemma client_Get_key:
  "client_Get req w = (Inr d, w') \<Longrightarrow>
   d_namespace d = req_namespace req \<and> d_name d = req_name req \<and> d \<in> set (deployments w)"
  by (auto dest!: client_Get_Inr simp: find_Some_iff)

lemma Reconcile_cases:
  assumes "Reconcile req w = (res, w', tr)"
  obtains
    (get_failed) err where "client_Get req w = (Inl err, w')" "res = IgnoreNotFound err" "tr = []"
  | (list_failed) deploy w1 err where "client_Get req w = (Inr deploy, w1)"
      "findCronJobsForDeployment deploy w1 = (Inl err, w')" "res = Some err"
      "tr = [Inc syncsTotal (req_namespace req) (req_name req)]"
  | (looped) deploy w1 w2 tr' where "client_Get req w = (Inr deploy, w1)"
      "findCronJobsForDeployment deploy w1 =
         (Inr (matchCronJobs deploy
                 (filter (\<lambda>cj. cj_namespace cj = d_namespace deploy) (cronjobs w)) []), w2)"
      "reconcileLoop deploy
         (matchCronJobs deploy
            (filter (\<lambda>cj. cj_namespace cj = d_namespace deploy) (cronjobs w)) []) w2 =
         (res, w', tr')"
      "tr = Inc syncsTotal (req_namespace req) (req_name req) # tr'"
proof (cases "client_Get req w")
  case (Pair g w1)
  show ?thesis
  proof (cases g)
    case (Inl err)
    with Pair assms get_failed show ?thesis by (simp add: Reconcile_def)
  next
    case (Inr deploy)
    note got = Pair [unfolded Inr]
    from client_Get_key [OF got] client_Get_store [OF got]
    have key: "d_namespace deploy = req_namespace req" "d_name deploy = req_name req"
      and store: "cronjobs w1 = cronjobs w" by simp_all
    show ?thesis
    proof (cases "findCronJobsForDeployment deploy w1")
      case (Pair f w2)
      note found = this
      show ?thesis
      proof (cases f)
        case (Inl err)
        with found got assms key list_failed show ?thesis by (simp add: Reconcile_def)
      next
        case (Inr cjs)
        from findCronJobsForDeployment_Inr [OF found [unfolded Inr]] store
        have cjs: "cjs = matchCronJobs deploy
                 (filter (\<lambda>cj. cj_namespace cj = d_namespace deploy) (cronjobs w)) []"
          by simp
        from assms got found Inr key
        obtain tr' where "reconcileLoop deploy cjs w2 = (res, w', tr')"
          "tr = Inc syncsTotal (req_namespace req) (req_name req) # tr'"
          by (auto simp: Reconcile_def split: prod.splits)
        with looped [OF got] found Inr cjs show ?thesis by simp
      qed
    qed
  qed
qed


subsection \<open>A failing write of a CronJob\<close>






subsection \<open>Effects that follow a successful write\<close>

lemma afterPersist_all:
  "(\<forall>e \<in> set tr. perCronJob e \<longrightarrow> (\<exists>s \<in> U. concerns e s)) \<Longrightarrow> afterPersist U tr"
  unfolding afterPersist_def by auto

lemma afterPersist_mono:
  "afterPersist U tr \<Longrightarrow> U \<subseteq> V \<Longrightarrow> afterPersist V tr"
  unfolding afterPersist_def by blast

lemma afterPersist_append:
  assumes a: "afterPersist U a" and b: "afterPersist (U \<union> {s. Update s None \<in> set a}) b"
  shows "afterPersist U (a @ b)"
  unfolding afterPersist_def
proof (intro allI impI)
  fix pre e post
  assume "a @ b = pre @ e # post \<and> perCronJob e"
  then have eq: "a @ b = pre @ e # post" and e: "perCronJob e" by simp_all
  from eq [unfolded append_eq_append_conv2] obtain us where
    us: "(a = pre @ us \<and> us @ b = e # post) \<or> (a @ us = pre \<and> b = us @ e # post)"
    by (elim exE)
  note a' = a [unfolded afterPersist_def, rule_format]
  note b' = b [unfolded afterPersist_def, rule_format]
  from us show "\<exists>s. (s \<in> U \<or> Update s None \<in> set pre) \<and> concerns e s"
  proof
    assume left: "a = pre @ us \<and> us @ b = e # post"
    show ?thesis
    proof (cases us)
      case Nil
      with left have "b = [] @ e # post" and pre: "pre = a" by simp_all
      with e have "\<exists>s. (s \<in> U \<union> {s. Update s None \<in> set a} \<or> Update s None \<in> set []) \<and> concerns e s"
        by (intro b') simp
      with pre show ?thesis by auto
    next
      case (Cons u us')
      with left have "a = pre @ e # us'" by simp
      with e show ?thesis by (intro a') simp
    qed
  next
    assume right: "a @ us = pre \<and> b = us @ e # post"
    with e have "\<exists>s. (s \<in> U \<union> {s. Update s None \<in> set a} \<or> Update s None \<in> set us) \<and> concerns e s"
      by (intro b') simp
    with right show ?thesis by auto
  qed
qed

lemma reconcileLoop_afterPersist:
  "reconcileLoop deploy cjs w = (res, w', tr) \<Longrightarrow> afterPersist {} tr"
proof (induction cjs arbitrary: w res w' tr)
  case Nil
  then show ?case by (simp add: afterPersist_def)
next
  case (Cons cj0 rest)
  let ?s = "fst (syncImages deploy cj0)"
  from Cons.prems(1) show ?case
  proof (cases rule: reconcileLoop_Cons_cases)
    case in_sync
    from Cons.IH [OF in_sync(2)] show ?thesis .
  next
    case (update_failed err)
    show ?thesis
      unfolding update_failed(4) by (rule afterPersist_all) (simp add: deploymentRef_def)
  next
    case (delete_failed err w1 trd)
    from deleteJobsForCronJob_effects [OF delete_failed(3)]
    have own: "\<forall>e \<in> set trd. concerns e ?s" by blast
    have first: "afterPersist {} [Update ?s None]"
      by (rule afterPersist_all) simp
    have "afterPersist {?s}
            ([Inc cronjobsUpdated (cj_namespace ?s) (cj_name ?s),
              Event (cronJobRef ?s) EventTypeNormal ''CronJobUpdated''
                (cronJobUpdatedMessage (d_namespace deploy) (d_name deploy))]
             @ trd @
             [Inc syncErrors (d_namespace deploy) (d_name deploy),
              Event (cronJobRef ?s) EventTypeWarning ''DeleteJobsFailed''
                (deleteJobsFailedMessage (cj_name ?s) err)])"
      by (rule afterPersist_all) (simp add: own ball_Un)
    with afterPersist_append [OF first] show ?thesis
      unfolding delete_failed(5) by simp
  next
    case (continued w1 w2 trd tr')
    from deleteJobsForCronJob_effects [OF continued(3)]
    have own: "\<forall>e \<in> set trd. concerns e ?s" by blast
    have first: "afterPersist {} [Update ?s None]"
      by (rule afterPersist_all) simp
    have mid: "afterPersist {?s}
            ([Inc cronjobsUpdated (cj_namespace ?s) (cj_name ?s),
              Event (cronJobRef ?s) EventTypeNormal ''CronJobUpdated''
                (cronJobUpdatedMessage (d_namespace deploy) (d_name deploy))]
             @ trd @
             [Event (cronJobRef ?s) EventTypeNormal ''JobsRecreated''
                ''Deleted existing Jobs so future runs use the updated image''])"
      (is "afterPersist _ ?mid")
      by (rule afterPersist_all) (simp add: own ball_Un)
    have "afterPersist ({?s} \<union> {s. Update s None \<in> set ?mid}) tr'"
      by (rule afterPersist_mono [OF Cons.IH [OF continued(4)]]) simp
    from afterPersist_append [OF mid this]
    have "afterPersist ({} \<union> {s. Update s None \<in> set [Update ?s None]}) (?mid @ tr')"
      by simp
    from afterPersist_append [OF first this] show ?thesis
      unfolding continued(5) by simp
  qed
qed

lemma reconcileLoop_Update_mutated:
  "reconcileLoop deploy cjs w = (res, w', tr) \<Longrightarrow> Update s r \<in> set tr \<Longrightarrow>
   \<exists>s0 \<in> set cjs. snd (syncImages deploy s0) \<and> s = fst (syncImages deploy s0)"
proof (induction cjs arbitrary: w res w' tr)
  case Nil
  then show ?case by simp
next
  case (Cons cj0 rest)
  from Cons.prems(1) show ?case
  proof (cases rule: reconcileLoop_Cons_cases)
    case in_sync
    from Cons.IH [OF in_sync(2) Cons.prems(2)] show ?thesis by simp
  next
    case (update_failed err)
    with Cons.prems(2) show ?thesis by auto
  next
    case (delete_failed err w1 trd)
    from deleteJobsForCronJob_effects [OF delete_failed(3)]
    have "Update s r \<notin> set trd" by blast
    with delete_failed Cons.prems(2) show ?thesis by auto
  next
    case (continued w1 w2 trd tr')
    from deleteJobsForCronJob_effects [OF continued(3)]
    have "Update s r \<notin> set trd" by blast
    with continued(1,5) Cons.prems(2) Cons.IH [OF continued(4)] show ?thesis by auto
  qed
qed

lemma reconcileLoop_in_sync:
  "\<not> snd (syncImages deploy cj0) \<Longrightarrow>
   reconcileLoop deploy (cj0 # rest) w = reconcileLoop deploy rest w"
  by (cases "syncImages deploy cj0") simp

text \<open>
  Claim C9. In the trace of a reconcile, every \<open>Delete\<close> of a Job comes after a
  successful \<open>Update\<close>, in the same trace, of a CronJob that owns the Job, and
  every event recorded on a CronJob comes after a successful \<open>Update\<close> of that
  CronJob. Every \<open>Update\<close> is the write of a stored CronJob for which the image
  synchronisation set \<open>updated\<close>; for a CronJob for which it did not, the loop
  does nothing at all and goes on with the remaining ones.
\<close>

theorem invalidation_follows_persist:
  assumes "Reconcile req (w :: ('c, 's) world) = (res, w', tr)"
  shows "(\<forall>pre j policy r post. tr = pre @ Delete j policy r # post \<longrightarrow>
            (\<exists>s. Update s None \<in> set pre \<and> isOwnedByCronJob j s)) \<and>
         (\<forall>pre ns name uid t reason message post.
            tr = pre @ Event (CronJobObj ns name uid) t reason message # post \<longrightarrow>
            (\<exists>s. Update s None \<in> set pre \<and> cronJobRef s = CronJobObj ns name uid)) \<and>
         (\<forall>s r. Update s r \<in> set tr \<longrightarrow>
            (\<exists>deploy \<in> set (deployments w). \<exists>s0 \<in> set (cronjobs w).
               snd (syncImages deploy s0) \<and> s = fst (syncImages deploy s0))) \<and>
         (\<forall>deploy cj0 rest (w0 :: ('c, 's) world). \<not> snd (syncImages deploy cj0) \<longrightarrow>
            reconcileLoop deploy (cj0 # rest) w0 = reconcileLoop deploy rest w0)"
proof -
  have ordered: "afterPersist {} tr"
    using assms
  proof (cases rule: Reconcile_cases)
    case (get_failed err)
    then show ?thesis by (simp add: afterPersist_def)
  next
    case (list_failed deploy w1 err)
    show ?thesis unfolding list_failed(4) by (rule afterPersist_all) simp
  next
    case (looped deploy w1 w2 tr')
    have "afterPersist {} [Inc syncsTotal (req_namespace req) (req_name req)]"
      by (rule afterPersist_all) simp
    from afterPersist_append [OF this] reconcileLoop_afterPersist [OF looped(3)]
    show ?thesis unfolding looped(4) by simp
  qed
  have deletes: "\<exists>s. Update s None \<in> set pre \<and> isOwnedByCronJob j s"
    if "tr = pre @ Delete j policy r # post" for pre j policy r post
    using ordered [unfolded afterPersist_def, rule_format, of pre "Delete j policy r" post] that
    by simp
  have events: "\<exists>s. Update s None \<in> set pre \<and> cronJobRef s = CronJobObj ns name uid"
    if "tr = pre @ Event (CronJobObj ns name uid) t reason message # post"
    for pre ns name uid t reason message post
    using ordered [unfolded afterPersist_def, rule_format,
        of pre "Event (CronJobObj ns name uid) t reason message" post] that
    by auto
  have updates: "\<exists>deploy \<in> set (deployments w). \<exists>s0 \<in> set (cronjobs w).
               snd (syncImages deploy s0) \<and> s = fst (syncImages deploy s0)"
    if "Update s r \<in> set tr" for s r
    using assms
  proof (cases rule: Reconcile_cases)
    case (get_failed err)
    with that show ?thesis by simp
  next
    case (list_failed deploy w1 err)
    with that show ?thesis by simp
  next
    case (looped deploy w1 w2 tr')
    from that looped(4) have "Update s r \<in> set tr'" by simp
    from reconcileLoop_Update_mutated [OF looped(3) this]
    obtain s0 where s0: "s0 \<in> set (matchCronJobs deploy
            (filter (\<lambda>cj. cj_namespace cj = d_namespace deploy) (cronjobs w)) [])"
      and mutated: "snd (syncImages deploy s0)" "s = fst (syncImages deploy s0)"
      by blast
    from s0 have "s0 \<in> set (cronjobs w)" by (simp add: matchCronJobs_filter)
    with mutated client_Get_key [OF looped(1)] show ?thesis by blast
  qed
  show ?thesis
  proof (intro conjI allI impI)
    fix pre j policy r post
    assume "tr = pre @ Delete j policy r # post"
    then show "\<exists>s. Update s None \<in> set pre \<and> isOwnedByCronJob j s" by (rule deletes)
  next
    fix pre ns name uid t reason message post
    assume "tr = pre @ Event (CronJobObj ns name uid) t reason message # post"
    then show "\<exists>s. Update s None \<in> set pre \<and> cronJobRef s = CronJobObj ns name uid"
      by (rule events)
  next
    fix s r
    assume "Update s r \<in> set tr"
    then show "\<exists>deploy \<in> set (deployments w). \<exists>s0 \<in> set (cronjobs w).
               snd (syncImages deploy s0) \<and> s = fst (syncImages deploy s0)"
      by (rule updates)
  next
    fix deploy :: "'c deployment" and cj0 :: "('c, 's) cronjob" and rest
      and w0 :: "('c, 's) world"
    assume "\<not> snd (syncImages deploy cj0)"
    then show "reconcileLoop deploy (cj0 # rest) w0 = reconcileLoop deploy rest w0"
      by (rule reconcileLoop_in_sync)
  qed
qed


lemma demo_Reconcile:
  "Reconcile demo_request (demo_world []) =
     (None, (demo_world [])\<lparr>cronjobs := [demo_synced], jobs := [demo_stale_job], pods := []\<rparr>,
      [Inc syncsTotal ''default'' ''web'',
       Update demo_synced None,
       Inc cronjobsUpdated ''default'' ''report'',
       Event (CronJobObj ''default'' ''report'' ''uid-1'') EventTypeNormal ''CronJobUpdated''
         ''Updated job template images from Deployment default/web'',
       Delete demo_job DeletePropagationForeground None,
       DeleteAllOfPods ''default'' ''report-1'' None,
       Inc jobsDeleted ''default'' ''report'',
       Event (CronJobObj ''default'' ''report'' ''uid-1'') EventTypeNormal ''JobDeleted''
         ''Deleted Job report-1 and its Pods for CronJob report to allow new runs with updated image'',
       Event (CronJobObj ''default'' ''report'' ''uid-1'') EventTypeNormal ''JobsRecreated''
         ''Deleted existing Jobs so future runs use the updated image''])"
  by (simp add: Reconcile_def client_Get_def next_fault_def demo_world_def demo_request_def
      findCronJobsForDeployment_def client_ListCronJobs_def demo_matches demo_syncImages
      client_Update_def cronJobUpdatedMessage_def)
     (simp add: deleteJobsForCronJob_def client_ListJobs_def next_fault_def
      isOwnedByCronJob_def client_Delete_def client_DeleteAllOfPods_def podOfJob_def cronJobRef_def
      jobDeletedMessage_def cronJobUpdatedMessage_def demo_deploy_def demo_synced_def
      demo_cronjob_def sameCronJob_def
      demo_job_def demo_stale_job_def sameJob_def demo_pod_def)

theorem invalidation_follows_persist_witness:
  "Reconcile demo_request (demo_world []) =
     (None, (demo_world [])\<lparr>cronjobs := [demo_synced], jobs := [demo_stale_job], pods := []\<rparr>,
      [Inc syncsTotal ''default'' ''web'',
       Update demo_synced None,
       Inc cronjobsUpdated ''default'' ''report'',
       Event (CronJobObj ''default'' ''report'' ''uid-1'') EventTypeNormal ''CronJobUpdated''
         ''Updated job template images from Deployment default/web'']
      @ Delete demo_job DeletePropagationForeground None #
      [DeleteAllOfPods ''default'' ''report-1'' None,
       Inc jobsDeleted ''default'' ''report'',
       Event (CronJobObj ''default'' ''report'' ''uid-1'') EventTypeNormal ''JobDeleted''
         ''Deleted Job report-1 and its Pods for CronJob report to allow new runs with updated image'',
       Event (CronJobObj ''default'' ''report'' ''uid-1'') EventTypeNormal ''JobsRecreated''
         ''Deleted existing Jobs so future runs use the updated image'']) \<and>
   (\<exists>s. Update s None \<in>
          set [Inc syncsTotal ''default'' ''web'',
               Update demo_synced None,
               Inc cronjobsUpdated ''default'' ''report'',
               Event (CronJobObj ''default'' ''report'' ''uid-1'') EventTypeNormal
                 ''CronJobUpdated'' ''Updated job template images from Deployment default/web''] \<and>
        isOwnedByCronJob demo_job s) \<and>
   (\<exists>deploy \<in> set (deployments (demo_world [])). \<exists>s0 \<in> set (cronjobs (demo_world [])).
      snd (syncImages deploy s0) \<and> demo_synced = fst (syncImages deploy s0))"
proof -
  have run: "Reconcile demo_request (demo_world []) =
     (None, (demo_world [])\<lparr>cronjobs := [demo_synced], jobs := [demo_stale_job], pods := []\<rparr>,
      [Inc syncsTotal ''default'' ''web'',
       Update demo_synced None,
       Inc cronjobsUpdated ''default'' ''report'',
       Event (CronJobObj ''default'' ''report'' ''uid-1'') EventTypeNormal ''CronJobUpdated''
         ''Updated job template images from Deployment default/web'']
      @ Delete demo_job DeletePropagationForeground None #
      [DeleteAllOfPods ''default'' ''report-1'' None,
       Inc jobsDeleted ''default'' ''report'',
       Event (CronJobObj ''default'' ''report'' ''uid-1'') EventTypeNormal ''JobDeleted''
         ''Deleted Job report-1 and its Pods for CronJob report to allow new runs with updated image'',
       Event (CronJobObj ''default'' ''report'' ''uid-1'') EventTypeNormal ''JobsRecreated''
         ''Deleted existing Jobs so future runs use the updated image''])"
    using demo_Reconcile by simp
  note ordered = invalidation_follows_persist [OF run]
  from ordered have deleted: "\<exists>s. Update s None \<in>
          set [Inc syncsTotal ''default'' ''web'',
               Update demo_synced None,
               Inc cronjobsUpdated ''default'' ''report'',
               Event (CronJobObj ''default'' ''report'' ''uid-1'') EventTypeNormal
                 ''CronJobUpdated'' ''Updated job template images from Deployment default/web''] \<and>
        isOwnedByCronJob demo_job s"
    by blast
  have "Update demo_synced None \<in> set ([Inc syncsTotal ''default'' ''web'',
       Update demo_synced None,
       Inc cronjobsUpdated ''default'' ''report'',
       Event (CronJobObj ''default'' ''report'' ''uid-1'') EventTypeNormal ''CronJobUpdated''
         ''Updated job template images from Deployment default/web'']
      @ Delete demo_job DeletePropagationForeground None #
      [DeleteAllOfPods ''default'' ''report-1'' None,
       Inc jobsDeleted ''default'' ''report'',
       Event (CronJobObj ''default'' ''report'' ''uid-1'') EventTypeNormal ''JobDeleted''
         ''Deleted Job report-1 and its Pods for CronJob report to allow new runs with updated image'',
       Event (CronJobObj ''default'' ''report'' ''uid-1'') EventTypeNormal ''JobsRecreated''
         ''Deleted existing Jobs so future runs use the updated image''])"
    by simp
  with ordered have "\<exists>deploy \<in> set (deployments (demo_world [])). \<exists>s0 \<in> set (cronjobs (demo_world [])).
      snd (syncImages deploy s0) \<and> demo_synced = fst (syncImages deploy s0)"
    by blast
  with run deleted show ?thesis by blast
qed


subsection \<open>What the synchronisation and the write leave unchanged\<close>

lemma syncContainer_frame:
  "c_name (fst (syncContainer deploy c)) = c_name c \<and>
   c_rest (fst (syncContainer deploy c)) = c_rest c"
  by (simp add: syncContainer_def Let_def split: option.splits)

lemma syncImages_sameExceptImages:
  "sameExceptImages cj (fst (syncImages deploy cj))"
proof -
  have "cj_containers (fst (syncImages deploy cj)) =
          map (\<lambda>c. fst (syncContainer deploy c)) (cj_containers cj)"
    by (rule syncImages_containers)
  moreover have "fst (syncImages deploy cj) =
                   cj\<lparr>cj_containers := cj_containers (fst (syncImages deploy cj))\<rparr>"
    by (simp add: syncImages_def split_beta)
  ultimately show ?thesis
    by (simp add: sameExceptImages_def syncImages_def split_beta syncContainer_frame)
qed

lemma sameExceptImages_refl: "sameExceptImages a a"
  by (simp add: sameExceptImages_def)

lemma sameCronJob_distinct:
  "distinct (map (\<lambda>cj. (cj_namespace cj, cj_name cj)) cs) \<Longrightarrow> a \<in> set cs \<Longrightarrow> b \<in> set cs \<Longrightarrow>
   sameCronJob a b \<Longrightarrow> a = b"
  by (auto simp: sameCronJob_def distinct_map dest: inj_onD)

lemma update_keeps_frame:
  assumes rel: "list_all2 sameExceptImages C0 cur"
    and keys: "distinct (map (\<lambda>cj. (cj_namespace cj, cj_name cj)) C0)"
    and s0: "s0 \<in> set C0" and s: "sameExceptImages s0 s"
  shows "list_all2 sameExceptImages C0 (map (\<lambda>x. if sameCronJob s x then s else x) cur)"
proof -
  from rel have len: "length C0 = length cur"
    and nth: "\<And>i. i < length C0 \<Longrightarrow> sameExceptImages (C0 ! i) (cur ! i)"
    by (simp_all add: list_all2_conv_all_nth)
  have "sameExceptImages (C0 ! i) (if sameCronJob s (cur ! i) then s else cur ! i)"
    if i: "i < length C0" for i
  proof (cases "sameCronJob s (cur ! i)")
    case True
    from nth [OF i] True s have "sameCronJob s0 (C0 ! i)"
      by (simp add: sameExceptImages_def sameCronJob_def)
    from sameCronJob_distinct [OF keys s0 _ this] i have "C0 ! i = s0" by simp
    with True s show ?thesis by simp
  next
    case False
    with nth [OF i] show ?thesis by simp
  qed
  with len show ?thesis by (simp add: list_all2_conv_all_nth)
qed

lemma reconcileLoop_frame:
  assumes keys: "distinct (map (\<lambda>cj. (cj_namespace cj, cj_name cj)) C0)"
  shows "reconcileLoop deploy cjs w = (res, w', tr) \<Longrightarrow> set cjs \<subseteq> set C0 \<Longrightarrow>
         list_all2 sameExceptImages C0 (cronjobs w) \<Longrightarrow>
         list_all2 sameExceptImages C0 (cronjobs w')"
proof (induction cjs arbitrary: w res w' tr)
  case Nil
  then show ?case by simp
next
  case (Cons cj0 rest)
  let ?s = "fst (syncImages deploy cj0)"
  from Cons.prems(2) have cj0: "cj0 \<in> set C0" and rest: "set rest \<subseteq> set C0" by simp_all
  have written: "list_all2 sameExceptImages C0 (cronjobs w1)"
    if "client_Update ?s w = (None, w1)" for w1
  proof -
    from client_Update_None [OF that]
    have "cronjobs w1 = map (\<lambda>x. if sameCronJob ?s x then ?s else x) (cronjobs w)" by simp
    with update_keeps_frame [OF Cons.prems(3) keys cj0 syncImages_sameExceptImages]
    show ?thesis by simp
  qed
  from Cons.prems(1) show ?case
  proof (cases rule: reconcileLoop_Cons_cases)
    case in_sync
    from Cons.IH [OF in_sync(2) rest Cons.prems(3)] show ?thesis .
  next
    case (update_failed err)
    from client_Update_Some [OF update_failed(2)] Cons.prems(3) show ?thesis by simp
  next
    case (delete_failed err w1 trd)
    from written [OF delete_failed(2)] deleteJobsForCronJob_cronjobs [OF delete_failed(3)]
    show ?thesis by simp
  next
    case (continued w1 w2 trd tr')
    from written [OF continued(2)] deleteJobsForCronJob_cronjobs [OF continued(3)]
    have "list_all2 sameExceptImages C0 (cronjobs w2)" by simp
    from Cons.IH [OF continued(4) rest this] show ?thesis .
  qed
qed

lemma reconcileLoop_deployments:
  "reconcileLoop deploy cjs w = (res, w', tr) \<Longrightarrow> deployments w' = deployments w"
proof (induction cjs arbitrary: w res w' tr)
  case Nil
  then show ?case by simp
next
  case (Cons cj0 rest)
  from Cons.prems(1) show ?case
  proof (cases rule: reconcileLoop_Cons_cases)
    case in_sync
    from Cons.IH [OF in_sync(2)] show ?thesis .
  next
    case (update_failed err)
    from client_Update_Some [OF update_failed(2)] show ?thesis by simp
  next
    case (delete_failed err w1 trd)
    from client_Update_None [OF delete_failed(2)]
      deleteJobsForCronJob_cronjobs [OF delete_failed(3)]
    show ?thesis by simp
  next
    case (continued w1 w2 trd tr')
    from client_Update_None [OF continued(2)] deleteJobsForCronJob_cronjobs [OF continued(3)]
      Cons.IH [OF continued(4)]
    show ?thesis by simp
  qed
qed

text \<open>
  Claim C7. The image synchronisation returns the CronJob with the same
  namespace, name, UID, labels, annotations and remaining fields, and with
  containers of the same names and remaining fields, in the same order: only
  images differ. Every CronJob a reconcile passes to \<open>Update\<close> relates in this
  way to a CronJob of the store it started from; in a store with one CronJob per
  namespace and name, the CronJobs after the reconcile relate in this way, one
  by one, to those before it; and the Deployments are as before.
\<close>

theorem only_images_change:
  assumes "Reconcile req w = (res, w', tr)"
  shows "sameExceptImages cj (fst (syncImages deploy cj)) \<and>
         (\<forall>s r. Update s r \<in> set tr \<longrightarrow> (\<exists>s0 \<in> set (cronjobs w). sameExceptImages s0 s)) \<and>
         (distinct (map (\<lambda>cj. (cj_namespace cj, cj_name cj)) (cronjobs w)) \<longrightarrow>
            list_all2 sameExceptImages (cronjobs w) (cronjobs w')) \<and>
         deployments w' = deployments w"
proof -
  have same: "list_all2 sameExceptImages (cronjobs w) (cronjobs w)"
    by (simp add: list_all2_same sameExceptImages_refl)
  have "(\<forall>s r. Update s r \<in> set tr \<longrightarrow> (\<exists>s0 \<in> set (cronjobs w). sameExceptImages s0 s)) \<and>
         (distinct (map (\<lambda>cj. (cj_namespace cj, cj_name cj)) (cronjobs w)) \<longrightarrow>
            list_all2 sameExceptImages (cronjobs w) (cronjobs w')) \<and>
         deployments w' = deployments w"
    using assms
  proof (cases rule: Reconcile_cases)
    case (get_failed err)
    with client_Get_store [OF get_failed(1)] same show ?thesis by simp
  next
    case (list_failed deploy w1 err)
    with client_Get_store [OF list_failed(1)] findCronJobsForDeployment_store [OF list_failed(2)]
      same
    show ?thesis by simp
  next
    case (looped d w1 w2 tr')
    let ?cjs = "matchCronJobs d (filter (\<lambda>cj. cj_namespace cj = d_namespace d) (cronjobs w)) []"
    have sub: "set ?cjs \<subseteq> set (cronjobs w)" by (auto simp: matchCronJobs_filter)
    from client_Get_store [OF looped(1)] findCronJobsForDeployment_store [OF looped(2)]
    have w2: "cronjobs w2 = cronjobs w" "deployments w2 = deployments w" by simp_all
    have updates: "\<exists>s0 \<in> set (cronjobs w). sameExceptImages s0 s" if "Update s r \<in> set tr" for s r
    proof -
      from that looped(4) have "Update s r \<in> set tr'" by simp
      from reconcileLoop_Update_mutated [OF looped(3) this] sub
      obtain s0 where "s0 \<in> set (cronjobs w)" "s = fst (syncImages d s0)" by blast
      with syncImages_sameExceptImages [of s0 d] show ?thesis by blast
    qed
    have store: "list_all2 sameExceptImages (cronjobs w) (cronjobs w')"
      if "distinct (map (\<lambda>cj. (cj_namespace cj, cj_name cj)) (cronjobs w))"
      using reconcileLoop_frame [OF that looped(3) sub] same w2 by simp
    from reconcileLoop_deployments [OF looped(3)] w2 have "deployments w' = deployments w"
      by simp
    with updates store show ?thesis by auto
  qed
  with syncImages_sameExceptImages show ?thesis by blast
qed

theorem only_images_change_witness:
  "Reconcile demo_request (demo_world []) =
     (None, (demo_world [])\<lparr>cronjobs := [demo_synced], jobs := [demo_stale_job], pods := []\<rparr>,
      [Inc syncsTotal ''default'' ''web'',
       Update demo_synced None,
       Inc cronjobsUpdated ''default'' ''report'',
       Event (CronJobObj ''default'' ''report'' ''uid-1'') EventTypeNormal ''CronJobUpdated''
         ''Updated job template images from Deployment default/web'',
       Delete demo_job DeletePropagationForeground None,
       DeleteAllOfPods ''default'' ''report-1'' None,
       Inc jobsDeleted ''default'' ''report'',
       Event (CronJobObj ''default'' ''report'' ''uid-1'') EventTypeNormal ''JobDeleted''
         ''Deleted Job report-1 and its Pods for CronJob report to allow new runs with updated image'',
       Event (CronJobObj ''default'' ''report'' ''uid-1'') EventTypeNormal ''JobsRecreated''
         ''Deleted existing Jobs so future runs use the updated image'']) \<and>
   distinct (map (\<lambda>cj. (cj_namespace cj, cj_name cj)) (cronjobs (demo_world []))) \<and>
   cronjobs (demo_world []) = [demo_cronjob] \<and>
   demo_synced \<noteq> demo_cronjob \<and>
   sameExceptImages demo_cronjob demo_synced \<and>
   list_all2 sameExceptImages (cronjobs (demo_world []))
     (cronjobs ((demo_world [])\<lparr>cronjobs := [demo_synced], jobs := [demo_stale_job], pods := []\<rparr>))"
proof -
  have keys: "distinct (map (\<lambda>cj. (cj_namespace cj, cj_name cj)) (cronjobs (demo_world [])))"
    and stored: "cronjobs (demo_world []) = [demo_cronjob]"
    by (simp_all add: demo_world_def)
  have changed: "demo_synced \<noteq> demo_cronjob"
  proof
    assume "demo_synced = demo_cronjob"
    then have "cj_containers demo_synced = cj_containers demo_cronjob" by simp
    then show False by (simp add: demo_synced_def demo_cronjob_def)
  qed
  from only_images_change [OF demo_Reconcile, of demo_cronjob demo_deploy] keys
  have "sameExceptImages demo_cronjob demo_synced \<and>
    list_all2 sameExceptImages (cronjobs (demo_world []))
     (cronjobs ((demo_world [])\<lparr>cronjobs := [demo_synced], jobs := [demo_stale_job], pods := []\<rparr>))"
    by (simp add: demo_syncImages)
  with demo_Reconcile keys stored changed show ?thesis by blast
qed


subsection \<open>Running the reconcile again\<close>

lemma syncContainer_idem:
  "\<not> snd (syncContainer deploy (fst (syncContainer deploy c)))"
  by (simp add: syncContainer_def Let_def split: option.splits)

lemma syncImages_idem:
  "\<not> snd (syncImages deploy (fst (syncImages deploy cj)))"
  by (simp add: syncImages_flag syncImages_containers syncContainer_idem)

lemma reconcileLoop_settles:
  "reconcileLoop deploy cjs w = (None, w', tr) \<Longrightarrow>
   \<forall>x \<in> set (cronjobs w). \<not> snd (syncImages deploy x) \<or> x \<in> set cjs \<or> Q x \<Longrightarrow>
   \<forall>x \<in> set (cronjobs w'). \<not> snd (syncImages deploy x) \<or> Q x"
proof (induction cjs arbitrary: w w' tr)
  case Nil
  then show ?case by simp
next
  case (Cons cj0 rest)
  let ?s = "fst (syncImages deploy cj0)"
  from Cons.prems(1) show ?case
  proof (cases rule: reconcileLoop_Cons_cases)
    case in_sync
    from in_sync(1) Cons.prems(2)
    have "\<forall>x \<in> set (cronjobs w). \<not> snd (syncImages deploy x) \<or> x \<in> set rest \<or> Q x"
      by auto
    from Cons.IH [OF in_sync(2) this] show ?thesis .
  next
    case (update_failed err)
    then show ?thesis by simp
  next
    case (delete_failed err w1 trd)
    then show ?thesis by simp
  next
    case (continued w1 w2 trd tr')
    from client_Update_None [OF continued(2)] deleteJobsForCronJob_cronjobs [OF continued(3)]
    have w2: "cronjobs w2 = map (\<lambda>x. if sameCronJob ?s x then ?s else x) (cronjobs w)"
      by simp
    have same: "sameCronJob ?s cj0"
      using syncImages_sameExceptImages [of cj0 deploy]
      by (simp add: sameExceptImages_def sameCronJob_def)
    have "\<forall>x \<in> set (cronjobs w2). \<not> snd (syncImages deploy x) \<or> x \<in> set rest \<or> Q x"
    proof
      fix y assume "y \<in> set (cronjobs w2)"
      then obtain x where x: "x \<in> set (cronjobs w)"
        and y: "y = (if sameCronJob ?s x then ?s else x)"
        unfolding w2 by auto
      show "\<not> snd (syncImages deploy y) \<or> y \<in> set rest \<or> Q y"
      proof (cases "sameCronJob ?s x")
        case True
        with y show ?thesis by (simp add: syncImages_idem)
      next
        case False
        with same have "x \<noteq> cj0" by auto
        with False y x Cons.prems(2) show ?thesis by auto
      qed
    qed
    from Cons.IH [OF continued(4) this] show ?thesis .
  qed
qed

lemma reconcileLoop_noop:
  "\<forall>s \<in> set cjs. \<not> snd (syncImages deploy s) \<Longrightarrow> reconcileLoop deploy cjs w = (None, w, [])"
  by (induction cjs) (simp_all add: reconcileLoop_in_sync del: reconcileLoop.simps(2))

lemma client_Get_no_fault:
  "faults w = [] \<Longrightarrow>
   find (\<lambda>d. d_namespace d = req_namespace req \<and> d_name d = req_name req) (deployments w) = Some d \<Longrightarrow>
   client_Get req w = (Inr d, w)"
  by (simp add: client_Get_def next_fault_def)

lemma findCronJobsForDeployment_no_fault:
  "faults w = [] \<Longrightarrow>
   findCronJobsForDeployment d w =
     (Inr (matchCronJobs d (filter (\<lambda>cj. cj_namespace cj = d_namespace d) (cronjobs w)) []), w)"
  by (simp add: findCronJobsForDeployment_def client_ListCronJobs_def next_fault_def)


text \<open>
  Claim C3. After a reconcile that fetched the Deployment and returned no error,
  a second reconcile of the same request on the world the first one left
  (whatever client calls fail this time) finds \<open>updated = False\<close> for every
  CronJob it matches, produces no effect other than the increment of the
  reconcile counter (no \<open>Update\<close>, no \<open>Delete\<close>, no pod deletion, no event), and
  leaves the store as it is; when no client call fails, it returns no error.
\<close>

theorem reconcile_idempotent:
  assumes fetched: "client_Get req w = (Inr deploy, wg)"
    and first: "Reconcile req w = (None, w1, tr1)"
    and second: "Reconcile req w1 = (res2, w2, tr2)"
  shows "(\<forall>s \<in> set (matchCronJobs deploy
                     (filter (\<lambda>cj. cj_namespace cj = d_namespace deploy) (cronjobs w1)) []).
            \<not> snd (syncImages deploy s)) \<and>
         (tr2 = [] \<or> tr2 = [Inc syncsTotal (req_namespace req) (req_name req)]) \<and>
         deployments w2 = deployments w1 \<and> cronjobs w2 = cronjobs w1 \<and>
         jobs w2 = jobs w1 \<and> pods w2 = pods w1 \<and>
         (faults w1 = [] \<longrightarrow>
            res2 = None \<and> tr2 = [Inc syncsTotal (req_namespace req) (req_name req)])"
proof -
  let ?P = "\<lambda>d. d_namespace d = req_namespace req \<and> d_name d = req_name req"
  let ?matched = "\<lambda>cs. matchCronJobs deploy
                     (filter (\<lambda>cj. cj_namespace cj = d_namespace deploy) cs) []"
  let ?Q = "\<lambda>x. \<not> (cj_namespace x = d_namespace deploy \<and>
                   (labelMatches x deploy \<or> annotationMatches x deploy \<or> hasSharedImage x deploy))"
  from client_Get_Inr [OF fetched]
  have found: "find ?P (deployments w) = Some deploy" by simp
  have "(\<forall>x \<in> set (cronjobs w1). \<not> snd (syncImages deploy x) \<or> ?Q x) \<and>
        deployments w1 = deployments w"
    using first
  proof (cases rule: Reconcile_cases)
    case (get_failed err)
    with fetched show ?thesis by simp
  next
    case (list_failed d wa err)
    then show ?thesis by simp
  next
    case (looped d wa wb tr')
    from looped(1) fetched have d: "d = deploy" by simp
    from client_Get_store [OF looped(1)] findCronJobsForDeployment_store [OF looped(2)]
    have wb: "cronjobs wb = cronjobs w" "deployments wb = deployments w" by simp_all
    have "\<forall>x \<in> set (cronjobs wb).
            \<not> snd (syncImages deploy x) \<or> x \<in> set (?matched (cronjobs w)) \<or> ?Q x"
      by (auto simp: wb matchCronJobs_filter)
    from reconcileLoop_settles [OF looped(3) [unfolded d] this]
    have "\<forall>x \<in> set (cronjobs w1). \<not> snd (syncImages deploy x) \<or> ?Q x" .
    moreover from reconcileLoop_deployments [OF looped(3)] wb
    have "deployments w1 = deployments w" by simp
    ultimately show ?thesis by simp
  qed
  then have settled: "\<forall>x \<in> set (cronjobs w1). \<not> snd (syncImages deploy x) \<or> ?Q x"
    and deps: "deployments w1 = deployments w" by simp_all
  from settled have in_sync: "\<forall>s \<in> set (?matched (cronjobs w1)). \<not> snd (syncImages deploy s)"
    by (auto simp: matchCronJobs_filter)
  from found deps have found1: "find ?P (deployments w1) = Some deploy" by simp
  have rerun: "(tr2 = [] \<or> tr2 = [Inc syncsTotal (req_namespace req) (req_name req)]) \<and>
         deployments w2 = deployments w1 \<and> cronjobs w2 = cronjobs w1 \<and>
         jobs w2 = jobs w1 \<and> pods w2 = pods w1"
    using second
  proof (cases rule: Reconcile_cases)
    case (get_failed err)
    with client_Get_store [OF get_failed(1)] show ?thesis by simp
  next
    case (list_failed d wa err)
    with client_Get_store [OF list_failed(1)] findCronJobsForDeployment_store [OF list_failed(2)]
    show ?thesis by simp
  next
    case (looped d wa wb tr')
    from client_Get_Inr [OF looped(1)] found1 have d: "d = deploy" by simp
    from reconcileLoop_noop [OF in_sync, of wb] looped(3) [unfolded d]
    have "w2 = wb" "tr' = []" by simp_all
    with looped(4) client_Get_store [OF looped(1)] findCronJobsForDeployment_store [OF looped(2)]
    show ?thesis by simp
  qed
  have quiet: "res2 = None \<and> tr2 = [Inc syncsTotal (req_namespace req) (req_name req)]"
    if "faults w1 = []"
  proof -
    from client_Get_no_fault [OF that found1]
    have get: "client_Get req w1 = (Inr deploy, w1)" .
    from client_Get_key [OF get]
    have key: "d_namespace deploy = req_namespace req" "d_name deploy = req_name req"
      by simp_all
    from second get findCronJobsForDeployment_no_fault [OF that, of deploy]
      reconcileLoop_noop [OF in_sync, of w1] key
    show ?thesis by (simp add: Reconcile_def)
  qed
  from in_sync rerun quiet show ?thesis by blast
qed

lemma demo_Reconcile_again:
  "Reconcile demo_request
     ((demo_world [])\<lparr>cronjobs := [demo_synced], jobs := [demo_stale_job], pods := []\<rparr>) =
   (None, (demo_world [])\<lparr>cronjobs := [demo_synced], jobs := [demo_stale_job], pods := []\<rparr>,
    [Inc syncsTotal ''default'' ''web''])"
  by (simp add: Reconcile_def client_Get_def next_fault_def demo_world_def demo_request_def
      findCronJobsForDeployment_def client_ListCronJobs_def labelMatches_def
      syncImages_def syncContainer_def imageByName_def
      demo_deploy_def demo_synced_def demo_cronjob_def)

lemma demo_client_Get:
  "client_Get demo_request (demo_world []) = (Inr demo_deploy, demo_world [])"
  by (simp add: client_Get_def next_fault_def demo_world_def demo_request_def demo_deploy_def)

theorem reconcile_idempotent_witness:
  "client_Get demo_request (demo_world []) = (Inr demo_deploy, demo_world []) \<and>
   fst (Reconcile demo_request (demo_world [])) = None \<and>
   Update demo_synced None \<in> set (snd (snd (Reconcile demo_request (demo_world [])))) \<and>
   fst (snd (Reconcile demo_request (demo_world []))) =
     (demo_world [])\<lparr>cronjobs := [demo_synced], jobs := [demo_stale_job], pods := []\<rparr> \<and>
   Reconcile demo_request
     ((demo_world [])\<lparr>cronjobs := [demo_synced], jobs := [demo_stale_job], pods := []\<rparr>) =
   (None, (demo_world [])\<lparr>cronjobs := [demo_synced], jobs := [demo_stale_job], pods := []\<rparr>,
    [Inc syncsTotal ''default'' ''web'']) \<and>
   matchCronJobs demo_deploy
     (filter (\<lambda>cj. cj_namespace cj = d_namespace demo_deploy)
        (cronjobs ((demo_world [])\<lparr>cronjobs := [demo_synced], jobs := [demo_stale_job],
                                     pods := []\<rparr>))) [] = [demo_synced] \<and>
   \<not> snd (syncImages demo_deploy demo_synced)"
proof -
  have matched: "matchCronJobs demo_deploy
     (filter (\<lambda>cj. cj_namespace cj = d_namespace demo_deploy)
        (cronjobs ((demo_world [])\<lparr>cronjobs := [demo_synced], jobs := [demo_stale_job],
                                     pods := []\<rparr>))) [] = [demo_synced]"
    by (simp add: demo_world_def labelMatches_def demo_synced_def demo_cronjob_def
        demo_deploy_def)
  from reconcile_idempotent [OF demo_client_Get demo_Reconcile demo_Reconcile_again]
  have "\<not> snd (syncImages demo_deploy demo_synced)"
    unfolding matched by simp
  with demo_client_Get demo_Reconcile demo_Reconcile_again matched show ?thesis by simp
qed

end
